theory Spec2Isabelle
  imports
    Complex_Main
    "HOL-Library.Sublist"
    "HOL-Library.Char_ord"
    "HOL-Library.List_Lexorder"
    "HOL-Library.Product_Lexorder"
begin

section \<open>Strings\<close>

text \<open>
  Python strings are modelled as \<open>string\<close> (lists of 8-bit characters), so the model
  covers ASCII path names; \<open>str.lower\<close> is the ASCII case folding.  Strings are ordered
  lexicographically by character code, as Python orders them by code point.
\<close>

definition upper_to_lower :: "(char \<times> char) list" where
  "upper_to_lower = zip ''ABCDEFGHIJKLMNOPQRSTUVWXYZ'' ''abcdefghijklmnopqrstuvwxyz''"

definition lower_char :: "char \<Rightarrow> char" where
  "lower_char c = (case map_of upper_to_lower c of Some d \<Rightarrow> d | None \<Rightarrow> c)"

definition lower :: "string \<Rightarrow> string" where
  "lower s = map lower_char s"

text \<open>\<open>s.endswith(sfx)\<close> and \<open>s.startswith(pre)\<close>.\<close>

definition endswith :: "string \<Rightarrow> string \<Rightarrow> bool" where
  "endswith s sfx \<longleftrightarrow> length sfx \<le> length s \<and> drop (length s - length sfx) s = sfx"

definition startswith :: "string \<Rightarrow> string \<Rightarrow> bool" where
  "startswith s pre \<longleftrightarrow> take (length pre) s = pre"

text \<open>\<open>sub in s\<close> on strings: \<open>sub\<close> occurs in \<open>s\<close> as a contiguous block.\<close>

fun str_contains :: "string \<Rightarrow> string \<Rightarrow> bool" where
  "str_contains sub [] = (sub = [])"
| "str_contains sub (c # cs) = (startswith (c # cs) sub \<or> str_contains sub cs)"

text \<open>\<open>s.rfind(c)\<close>: the index of the last \<open>c\<close>, \<open>None\<close> for Python's \<open>-1\<close>.\<close>

fun rfind :: "char \<Rightarrow> string \<Rightarrow> nat option" where
  "rfind d [] = None"
| "rfind d (c # cs) =
     (case rfind d cs of
        Some i \<Rightarrow> Some (Suc i)
      | None \<Rightarrow> if c = d then Some 0 else None)"

text \<open>
  \<open>PurePath.suffix\<close> and \<open>PurePath.stem\<close> of an entry name (pathlib):
  with \<open>i = name.rfind('.')\<close>, the suffix is \<open>name[i:]\<close> and the stem \<open>name[:i]\<close> when
  \<open>0 < i < len(name) - 1\<close>; otherwise the suffix is empty and the stem is the name.
\<close>

definition path_suffix :: "string \<Rightarrow> string" where
  "path_suffix name =
     (case rfind CHR ''.'' name of
        Some i \<Rightarrow> if 0 < i \<and> i + 1 < length name then drop i name else []
      | None \<Rightarrow> [])"

definition path_stem :: "string \<Rightarrow> string" where
  "path_stem name =
     (case rfind CHR ''.'' name of
        Some i \<Rightarrow> if 0 < i \<and> i + 1 < length name then take i name else name
      | None \<Rightarrow> name)"

text \<open>The recognized data-file suffix.\<close>

definition traineddata :: string where
  "traineddata = ''.traineddata''"

section \<open>Path arithmetic of \<open>os.path\<close> (POSIX flavour)\<close>

text \<open>\<open>s.split(c)\<close> and \<open>sep.join(xs)\<close>.\<close>

fun split_on :: "char \<Rightarrow> string \<Rightarrow> string list" where
  "split_on c [] = [[]]"
| "split_on c (x # xs) =
     (if x = c then [] # split_on c xs
      else (case split_on c xs of
              y # ys \<Rightarrow> (x # y) # ys
            | [] \<Rightarrow> [[x]]))"

fun join_with :: "string \<Rightarrow> string list \<Rightarrow> string" where
  "join_with sep [] = []"
| "join_with sep [x] = x"
| "join_with sep (x # y # ys) = x @ sep @ join_with sep (y # ys)"

text \<open>
  \<open>os.path.normpath\<close>: one leading slash, or exactly two, is kept; empty components
  and \<open>.\<close> are dropped; \<open>..\<close> removes the component before it, is dropped at the
  root and is kept at the front of a relative path; the empty result is \<open>.\<close>.
\<close>

definition initial_slashes :: "string \<Rightarrow> nat" where
  "initial_slashes path =
     (if startswith path ''/''
      then (if startswith path ''//'' \<and> \<not> startswith path ''///'' then 2 else 1)
      else 0)"

definition norm_step :: "nat \<Rightarrow> string list \<Rightarrow> string \<Rightarrow> string list" where
  "norm_step slashes new_comps part =
     (if part = [] \<or> part = ''.'' then new_comps
      else if part \<noteq> ''..'' \<or> (slashes = 0 \<and> new_comps = [])
                \<or> (new_comps \<noteq> [] \<and> last new_comps = ''..'')
           then new_comps @ [part]
      else if new_comps \<noteq> [] then butlast new_comps
      else new_comps)"

definition normpath :: "string \<Rightarrow> string" where
  "normpath path =
     (if path = [] then ''.''
      else let slashes = initial_slashes path;
               comps = foldl (norm_step slashes) [] (split_on CHR ''/'' path);
               p = replicate slashes CHR ''/'' @ join_with ''/'' comps
           in if p = [] then ''.'' else p)"

text \<open>\<open>os.path.join(a, b)\<close>, \<open>os.path.abspath\<close> (from the working directory) and
  \<open>os.path.dirname\<close>.\<close>

definition path_join :: "string \<Rightarrow> string \<Rightarrow> string" where
  "path_join a b =
     (if startswith b ''/'' then b
      else if a = [] \<or> endswith a ''/'' then a @ b
      else a @ ''/'' @ b)"

definition abspath :: "string \<Rightarrow> string \<Rightarrow> string" where
  "abspath cwd path = normpath (if startswith path ''/'' then path else path_join cwd path)"

definition rstrip :: "char \<Rightarrow> string \<Rightarrow> string" where
  "rstrip c s = rev (dropWhile (\<lambda>x. x = c) (rev s))"

definition dirname :: "string \<Rightarrow> string" where
  "dirname p =
     (let i = (case rfind CHR ''/'' p of None \<Rightarrow> 0 | Some k \<Rightarrow> k + 1);
          head = take i p
      in if head \<noteq> [] \<and> head \<noteq> replicate (length head) CHR ''/''
         then rstrip CHR ''/'' head else head)"

section \<open>Path objects of \<open>pathlib\<close> (POSIX flavour)\<close>

text \<open>
  \<open>Path(path)\<close> is represented by the string \<open>str(Path(path))\<close>, which is what the
  methods of the path object hand to the operating system.  The constructor keeps one
  leading slash, or exactly two, drops empty components and \<open>.\<close> (and so a trailing
  slash), keeps \<open>..\<close>, and reads a path without components and root as \<open>.\<close>:
  \<open>Path('')\<close> is the working directory.
\<close>

definition lstrip :: "char \<Rightarrow> string \<Rightarrow> string" where
  "lstrip c s = dropWhile (\<lambda>x. x = c) s"

definition Path :: "string \<Rightarrow> string" where
  "Path path =
     (let stripped = lstrip CHR ''/'' path;
          root = (if startswith path ''/''
                  then (if length path - length stripped = 2 then ''//'' else ''/'')
                  else []);
          parts = filter (\<lambda>x. x \<noteq> [] \<and> x \<noteq> ''.'') (split_on CHR ''/'' stripped);
          s = root @ join_with ''/'' parts
      in if s = [] then ''.'' else s)"

text \<open>The entry \<open>name\<close> of the directory \<open>p\<close>, as the path object that \<open>iterdir\<close>
  and \<open>glob\<close> yield: \<open>p\<close> is a \<open>Path\<close>.\<close>

definition child :: "string \<Rightarrow> string \<Rightarrow> string" where
  "child p name =
     (if p = ''.'' then name
      else if endswith p ''/'' then p @ name
      else p @ ''/'' @ name)"

section \<open>The file system as the program sees it\<close>

text \<open>
  The file-system primitives are platform code.  A file system maps a path string to
  what the operating system answers for it: an \<open>OSError\<close> when the path cannot be
  resolved (no such file, a file where a directory is needed, a cycle of symbolic links,
  a directory on the way that may not be searched), or else the file or directory found.
  A node carries the answer of \<open>os.access(path, os.R_OK)\<close> and its \<open>st_size\<close>; a
  directory carries the outcome of listing it, which is an \<open>OSError\<close> or the entry
  names in the order the operating system yields them.  Two path strings that resolve
  to the same directory (through a symbolic link, say) are two arguments with the same
  value.  Pattern matching is the case-sensitive one of POSIX.
\<close>

datatype oserror =
  FileNotFoundError | NotADirectoryError | LoopError | PermissionError | OtherOSError

datatype node =
    File bool nat
  | Dir bool nat "oserror + string list"

type_synonym filesystem = "string \<Rightarrow> oserror + node"

text \<open>The errors that pathlib's \<open>exists\<close> and \<open>is_dir\<close> turn into \<open>False\<close>;
  they raise the others.  In \<open>pathlib_exists\<close>, \<open>pathlib_is_dir\<close> and
  \<open>glob_traineddata\<close> the argument \<open>p\<close> is a \<open>Path\<close>.\<close>

definition ignore_error :: "oserror \<Rightarrow> bool" where
  "ignore_error e \<longleftrightarrow> e = FileNotFoundError \<or> e = NotADirectoryError \<or> e = LoopError"

definition pathlib_exists :: "filesystem \<Rightarrow> string \<Rightarrow> oserror + bool" where
  "pathlib_exists fs p =
     (case fs p of
        Inr n \<Rightarrow> Inr True
      | Inl e \<Rightarrow> if ignore_error e then Inr False else Inl e)"

definition pathlib_is_dir :: "filesystem \<Rightarrow> string \<Rightarrow> oserror + bool" where
  "pathlib_is_dir fs p =
     (case fs p of
        Inr (Dir r sz l) \<Rightarrow> Inr True
      | Inr (File r sz) \<Rightarrow> Inr False
      | Inl e \<Rightarrow> if ignore_error e then Inr False else Inl e)"

text \<open>\<open>os.path.exists\<close>, \<open>os.path.isdir\<close>, \<open>os.path.isfile\<close> and
  \<open>os.access(p, os.R_OK)\<close> answer \<open>False\<close> on every error.\<close>

definition path_exists :: "filesystem \<Rightarrow> string \<Rightarrow> bool" where
  "path_exists fs p = (case fs p of Inr n \<Rightarrow> True | Inl e \<Rightarrow> False)"

definition is_dir :: "filesystem \<Rightarrow> string \<Rightarrow> bool" where
  "is_dir fs p = (case fs p of Inr (Dir r sz l) \<Rightarrow> True | _ \<Rightarrow> False)"

definition is_file :: "filesystem \<Rightarrow> string \<Rightarrow> bool" where
  "is_file fs p = (case fs p of Inr (File r sz) \<Rightarrow> True | _ \<Rightarrow> False)"

definition access_r :: "filesystem \<Rightarrow> string \<Rightarrow> bool" where
  "access_r fs p =
     (case fs p of Inl e \<Rightarrow> False | Inr (File r sz) \<Rightarrow> r | Inr (Dir r sz l) \<Rightarrow> r)"

text \<open>\<open>os.listdir(p)\<close> and \<open>Path(p).iterdir()\<close>: the entry names, or the \<open>OSError\<close> raised.\<close>

definition listdir :: "filesystem \<Rightarrow> string \<Rightarrow> oserror + string list" where
  "listdir fs p =
     (case fs p of
        Inl e \<Rightarrow> Inl e
      | Inr (File r sz) \<Rightarrow> Inl NotADirectoryError
      | Inr (Dir r sz l) \<Rightarrow> l)"

text \<open>\<open>Path(p).stat().st_size\<close>.\<close>

definition stat_size :: "filesystem \<Rightarrow> string \<Rightarrow> oserror + nat" where
  "stat_size fs p =
     (case fs p of
        Inl e \<Rightarrow> Inl e
      | Inr (File r sz) \<Rightarrow> Inr sz
      | Inr (Dir r sz l) \<Rightarrow> Inr sz)"

text \<open>
  \<open>p.glob('*.traineddata')\<close>: the entries of the directory whose name matches the
  pattern, that is, ends with the suffix (the star also matches the empty string and a
  leading dot).  The glob first asks \<open>is_dir\<close>, which answers false for a path that
  does not exist and raises the errors it does not ignore; nothing is yielded for a
  path that is not a directory, nor for a directory whose listing is refused with a
  \<open>PermissionError\<close>; another \<open>OSError\<close> of the listing is raised.
\<close>

definition glob_traineddata :: "filesystem \<Rightarrow> string \<Rightarrow> oserror + string list" where
  "glob_traineddata fs p =
     (case fs p of
        Inr (Dir r sz (Inr names)) \<Rightarrow> Inr (filter (\<lambda>f. endswith f traineddata) names)
      | Inr (Dir r sz (Inl e)) \<Rightarrow> (if e = PermissionError then Inr [] else Inl e)
      | Inr (File r sz) \<Rightarrow> Inr []
      | Inl e \<Rightarrow> (if ignore_error e then Inr [] else Inl e))"

section \<open>The validators\<close>

text \<open>
  \<open>FastTessdataFinder._is_valid_tessdata_quick\<close>: with \<open>p = Path(path)\<close>, false
  unless \<open>p\<close> is a directory; then whether some entry of \<open>p.iterdir()\<close> has the
  pathlib suffix \<open>.traineddata\<close>.  An \<open>OSError\<close> raised by \<open>is_dir\<close> or by the
  listing is caught and gives false.
\<close>

definition is_valid_tessdata_quick :: "filesystem \<Rightarrow> string \<Rightarrow> bool" where
  "is_valid_tessdata_quick fs path =
     (let p = Path path
      in case pathlib_is_dir fs p of
           Inl e \<Rightarrow> False
         | Inr d \<Rightarrow>
             if \<not> d then False
             else (case listdir fs p of
                     Inl e \<Rightarrow> False
                   | Inr names \<Rightarrow> list_ex (\<lambda>f. path_suffix f = traineddata) names))"

text \<open>
  \<open>TesseractPathFinder._is_valid_tessdata_dir\<close>: lists the path and tests whether some
  entry name ends with \<open>.traineddata\<close>; every exception gives false.
\<close>

definition is_valid_tessdata_dir :: "filesystem \<Rightarrow> string \<Rightarrow> bool" where
  "is_valid_tessdata_dir fs path =
     (case listdir fs path of
        Inl e \<Rightarrow> False
      | Inr files \<Rightarrow> list_ex (\<lambda>f. endswith f traineddata) files)"

section \<open>The ranker: \<open>FastTessdataFinder._finalize_paths\<close>\<close>

text \<open>
  The first loop of \<open>_finalize_paths\<close>: a path that passes the validator is normalized
  and appended to \<open>valid_paths\<close> unless its normalization is there already.
\<close>

fun collect_valid :: "filesystem \<Rightarrow> string list \<Rightarrow> string list \<Rightarrow> string list" where
  "collect_valid fs [] valid_paths = valid_paths"
| "collect_valid fs (path # paths) valid_paths =
     (if is_valid_tessdata_quick fs path
      then (let normalized = normpath path
            in if normalized \<notin> set valid_paths
               then collect_valid fs paths (valid_paths @ [normalized])
               else collect_valid fs paths valid_paths)
      else collect_valid fs paths valid_paths)"

text \<open>
  \<open>priority_key\<close>: the score and the lower-cased path.  The count of data files is the
  length of the glob of \<open>Path(path)\<close>; when the glob raises, the bare \<open>except\<close>
  leaves the score as it is.
\<close>

definition env_markers :: "string list" where
  "env_markers = [''tessdata_prefix'', ''tesseract_data'']"

definition user_markers :: "string list" where
  "user_markers = [''home'', ''users'', ''~'']"

definition priority_key :: "filesystem \<Rightarrow> string \<Rightarrow> int \<times> string" where
  "priority_key fs path =
     (let path_lower = lower path;
          score = 0;
          score = (if list_ex (\<lambda>env. str_contains env path_lower) env_markers
                   then score - 1000 else score);
          score = (if str_contains ''/usr/share'' path_lower then score - 500 else score);
          score = (if list_ex (\<lambda>user. str_contains user path_lower) user_markers
                   then score - 300 else score);
          score = (case glob_traineddata fs (Path path) of
                     Inr files \<Rightarrow> score - int (length files) * 10
                   | Inl e \<Rightarrow> score)
      in (score, path_lower))"

text \<open>\<open>sorted(valid_paths, key=priority_key)\<close>: Python's sort is stable, as is
  \<open>sort_key\<close>; tuples are compared lexicographically.\<close>

definition finalize_paths :: "filesystem \<Rightarrow> string list \<Rightarrow> string list" where
  "finalize_paths fs paths = sort_key (priority_key fs) (collect_valid fs paths [])"

section \<open>The cache\<close>

text \<open>
  The cache file is absent (or cannot be examined), or it has a modification time and a
  content.  The content is \<open>Unreadable\<close> when the \<open>try\<close> block raises on it: the
  file cannot be opened or parsed, the document is no object, or its \<open>paths\<close> are
  not strings that can be iterated.  Otherwise it is a record of the form that was
  written, where a document without \<open>paths\<close> has the empty list.
\<close>

record cache_record =
  rec_paths :: "string list"
  rec_timestamp :: real
  rec_os :: string

datatype cache_content = Unreadable | Parsed cache_record

datatype cache_file = Absent | Present real cache_content

definition cache_max_age :: real where
  "cache_max_age = 6 * 3600"

text \<open>\<open>_load_cache\<close>, with \<open>now\<close> the reading of \<open>time.time()\<close>.  The age is taken
  from the modification time of the file.\<close>

definition load_cache :: "filesystem \<Rightarrow> real \<Rightarrow> cache_file \<Rightarrow> string list" where
  "load_cache fs now cf =
     (case cf of
        Absent \<Rightarrow> []
      | Present st_mtime content \<Rightarrow>
          (let age = now - st_mtime
           in if age > cache_max_age then []
              else (case content of
                      Unreadable \<Rightarrow> []
                    | Parsed data \<Rightarrow>
                        (let valid_paths = filter (is_valid_tessdata_quick fs) (rec_paths data)
                         in if valid_paths \<noteq> [] then valid_paths else []))))"

text \<open>\<open>_save_cache\<close>: a failure to write is swallowed and leaves the file as it was.\<close>

definition save_cache :: "bool \<Rightarrow> real \<Rightarrow> string \<Rightarrow> string list \<Rightarrow> cache_file \<Rightarrow> cache_file" where
  "save_cache writable now os paths cf =
     (if writable
      then Present now (Parsed \<lparr>rec_paths = paths, rec_timestamp = now, rec_os = os\<rparr>)
      else cf)"

section \<open>The environment probe\<close>

definition env_vars :: "string list" where
  "env_vars = [''TESSDATA_PREFIX'', ''TESSERACT_DATA_PATH'', ''TESSERACT_PREFIX'']"

text \<open>\<open>_check_environment_vars\<close>: for each variable with a non-empty value, the first
  of the value and its \<open>tessdata\<close> subdirectory that passes the validator, made absolute.\<close>

definition check_environment_vars ::
  "filesystem \<Rightarrow> (string \<Rightarrow> string option) \<Rightarrow> string \<Rightarrow> string list" where
  "check_environment_vars fs environ cwd =
     concat (map (\<lambda>var.
        (case environ var of
           None \<Rightarrow> []
         | Some v \<Rightarrow>
             if v = [] then []
             else (case find (is_valid_tessdata_quick fs) [v, path_join v ''tessdata''] of
                     None \<Rightarrow> []
                   | Some candidate \<Rightarrow> [abspath cwd candidate]))) env_vars)"

section \<open>The orchestrator: \<open>FastTessdataFinder.find_tessdata_paths\<close>\<close>

text \<open>
  A probe that is launched returns a list of paths or raises.  The probes that run the
  engine, walk the file system or expand patterns are platform code: what each of them
  would deliver in this search is given by the world.  So are the readings of the clock:
  at the start, in \<open>_load_cache\<close>, at the \<open>i\<close>-th test of the loop, and when the
  cache is written.  The \<open>verbose\<close> flag only prints and is left out.
\<close>

datatype exn = Exception string

type_synonym probe_outcome = "exn + string list"

record finder =
  timeout :: real
  os_type :: string

record world =
  w_fs :: filesystem
  w_environ :: "string \<Rightarrow> string option"
  w_cwd :: string
  w_cache :: cache_file
  w_cache_writable :: bool
  w_start :: real
  w_load :: real
  w_guard :: "nat \<Rightarrow> real"
  w_save :: real
  w_tesseract_cmd :: probe_outcome
  w_common_paths :: probe_outcome
  w_binary_relative :: probe_outcome
  w_package_locations :: probe_outcome

text \<open>\<open>_elapsed\<close> and \<open>_is_timeout\<close>.\<close>

definition elapsed :: "real \<Rightarrow> real \<Rightarrow> real" where
  "elapsed start_time now = (if start_time \<noteq> 0 then now - start_time else 0)"

definition is_timeout :: "finder \<Rightarrow> real \<Rightarrow> real \<Rightarrow> bool" where
  "is_timeout f start_time now \<longleftrightarrow> elapsed start_time now > timeout f"

text \<open>
  The set \<open>found_paths\<close> is a list without repetition, in the order of insertion;
  \<open>set_update\<close> is \<open>found_paths.update(paths)\<close>.  Python does not fix the order in
  which \<open>list(self.found_paths)\<close> delivers the members; the model delivers them in
  the order of insertion, and what is proved of the ranker's order is proved for every
  arrangement of the candidates.  The field \<open>launched\<close> is not in the program: it
  records the names of the probes that were invoked.
\<close>

definition set_update :: "string list \<Rightarrow> string list \<Rightarrow> string list" where
  "set_update found paths = foldl (\<lambda>acc p. if p \<in> set acc then acc else acc @ [p]) found paths"

record search_state =
  found_paths :: "string list"
  launched :: "string list"

definition methods :: "world \<Rightarrow> (string \<times> probe_outcome) list" where
  "methods w =
     [(''env_vars'', Inr (check_environment_vars (w_fs w) (w_environ w) (w_cwd w))),
      (''tesseract_cmd'', w_tesseract_cmd w),
      (''common_paths'', w_common_paths w),
      (''binary_relative'', w_binary_relative w),
      (''package_locations'', w_package_locations w)]"

text \<open>The test made before each method:
  \<open>self._is_timeout() or len(self.found_paths) >= 3\<close>, at the \<open>i\<close>-th reading of
  the clock.\<close>

definition stop_probing :: "finder \<Rightarrow> world \<Rightarrow> nat \<Rightarrow> search_state \<Rightarrow> bool" where
  "stop_probing f w i s \<longleftrightarrow>
     is_timeout f (w_start w) (w_guard w i) \<or> length (found_paths s) \<ge> 3"

text \<open>The loop over the methods, which breaks when the test holds; \<open>i\<close> counts the
  tests made so far.\<close>

fun run_methods ::
  "finder \<Rightarrow> world \<Rightarrow> nat \<Rightarrow> (string \<times> probe_outcome) list \<Rightarrow> search_state \<Rightarrow> search_state" where
  "run_methods f w i [] s = s"
| "run_methods f w i ((name, outcome) # ms) s =
     (if stop_probing f w i s then s
      else run_methods f w (Suc i) ms
             (case outcome of
                Inr paths \<Rightarrow>
                  s\<lparr>found_paths := set_update (found_paths s) paths,
                    launched := launched s @ [name]\<rparr>
              | Inl e \<Rightarrow> s\<lparr>launched := launched s @ [name]\<rparr>))"

text \<open>
  What a call of \<open>find_tessdata_paths\<close> leaves: the list it returns, the cache file
  after it, and the probes it launched.  \<open>fresh_search\<close> is the part of
  \<open>find_tessdata_paths\<close> after the cache was consulted: the loop, the finalizing step
  and, for a non-empty result with the cache in use, the write of the cache.
\<close>

record search_outcome =
  result :: "string list"
  cache_after :: cache_file
  probes_launched :: "string list"

definition fresh_search :: "finder \<Rightarrow> world \<Rightarrow> bool \<Rightarrow> search_outcome" where
  "fresh_search f w use_cache =
     (let s = run_methods f w 0 (methods w) \<lparr>found_paths = [], launched = []\<rparr>;
          res = finalize_paths (w_fs w) (found_paths s)
      in \<lparr>result = res,
          cache_after = (if use_cache \<and> res \<noteq> []
                         then save_cache (w_cache_writable w) (w_save w) (os_type f) res (w_cache w)
                         else w_cache w),
          probes_launched = launched s\<rparr>)"

text \<open>\<open>find_tessdata_paths\<close>: with the cache in use, a non-empty list from
  \<open>_load_cache\<close> is returned at once.\<close>

definition find_tessdata_paths :: "finder \<Rightarrow> world \<Rightarrow> bool \<Rightarrow> search_outcome" where
  "find_tessdata_paths f w use_cache =
     (let cached = (if use_cache then load_cache (w_fs w) (w_load w) (w_cache w) else [])
      in if use_cache \<and> cached \<noteq> []
         then \<lparr>result = cached, cache_after = w_cache w, probes_launched = []\<rparr>
         else fresh_search f w use_cache)"

text \<open>\<open>get_primary_path\<close>: the first path of the search with the cache in use.\<close>

definition get_primary_path :: "finder \<Rightarrow> world \<Rightarrow> string option" where
  "get_primary_path f w =
     (case result (find_tessdata_paths f w True) of [] \<Rightarrow> None | p # ps \<Rightarrow> Some p)"

section \<open>The exhaustive finder: \<open>TesseractPathFinder\<close>\<close>

text \<open>
  What the platform delivers to \<open>find_paths\<close>: the environment, the binaries found by
  \<open>_find_tesseract_binaries\<close>, \<open>os.path.realpath\<close>, the paths that
  \<open>_get_tessdata_from_tesseract\<close> reads from the engine's output, those that
  \<open>_comprehensive_tessdata_search\<close> collects on its walk, and the home directory.
\<close>

record platform =
  p_environ :: "string \<Rightarrow> string option"
  p_binaries :: "string list"
  p_realpath :: "string \<Rightarrow> string"
  p_from_tesseract :: "string list"
  p_search :: "string list"
  p_home :: string

text \<open>\<open>for path in xs: if path not in paths: paths.append(path)\<close>.\<close>

definition append_new :: "string list \<Rightarrow> string list \<Rightarrow> string list" where
  "append_new paths xs = foldl (\<lambda>acc path. if path \<notin> set acc then acc @ [path] else acc) paths xs"

definition relative_paths :: "string list" where
  "relative_paths =
     [''../share/tesseract-ocr/tessdata'',
      ''../share/tesseract/tessdata'',
      ''../../share/tesseract-ocr/tessdata'',
      ''../../share/tesseract/tessdata'',
      ''../tessdata'',
      ''tessdata'']"

definition from_binary :: "filesystem \<Rightarrow> platform \<Rightarrow> string list \<Rightarrow> string \<Rightarrow> string list" where
  "from_binary fs pl paths tess_bin =
     (let bin_dir = dirname (p_realpath pl tess_bin)
      in foldl (\<lambda>acc rel.
            (let path = normpath (path_join bin_dir rel)
             in if is_dir fs path \<and> is_valid_tessdata_dir fs path \<and> path \<notin> set acc
                then acc @ [path] else acc)) paths relative_paths)"

definition check_user_locations :: "filesystem \<Rightarrow> string \<Rightarrow> string list" where
  "check_user_locations fs home =
     filter (\<lambda>location. is_dir fs location \<and> is_valid_tessdata_dir fs location)
       [home @ ''/.local/share/tesseract/tessdata'',
        home @ ''/.tesseract/tessdata'',
        home @ ''/tesseract/tessdata'']"

definition find_paths :: "filesystem \<Rightarrow> platform \<Rightarrow> string list" where
  "find_paths fs pl =
     (let paths = (case p_environ pl ''TESSDATA_PREFIX'' of
                     None \<Rightarrow> []
                   | Some env_path \<Rightarrow>
                       if env_path \<noteq> [] \<and> is_dir fs env_path \<and> is_valid_tessdata_dir fs env_path
                       then [env_path] else []);
          paths = foldl (from_binary fs pl) paths (p_binaries pl);
          paths = append_new paths (p_from_tesseract pl);
          paths = append_new paths (p_search pl);
          paths = append_new paths (check_user_locations fs (p_home pl))
      in paths)"

definition find_primary_path :: "filesystem \<Rightarrow> platform \<Rightarrow> string option" where
  "find_primary_path fs pl = (case find_paths fs pl of [] \<Rightarrow> None | p # ps \<Rightarrow> Some p)"

text \<open>
  \<open>get_languages_from_path\<close>: for a readable path, the names of the listing that end
  with \<open>.traineddata\<close> once lower-cased, without their last twelve characters; an
  \<open>OSError\<close> of the listing gives the empty list.
\<close>

definition get_languages_from_path :: "filesystem \<Rightarrow> string \<Rightarrow> string list" where
  "get_languages_from_path fs dirpath =
     (if access_r fs dirpath
      then (case listdir fs dirpath of
              Inl e \<Rightarrow> []
            | Inr names \<Rightarrow>
                map (\<lambda>filename. take (length filename - 12) filename)
                  (filter (\<lambda>filename. endswith (lower filename) traineddata) names))
      else [])"

text \<open>
  \<open>get_all_languages\<close> over the paths that \<open>find_paths\<close> returned: first the
  languages of the paths that hold \<open>configs/box.train\<close>; when that gives none, the
  languages of all paths; sorted.
\<close>

definition has_box_train :: "filesystem \<Rightarrow> string \<Rightarrow> bool" where
  "has_box_train fs dirpath = is_file fs (dirpath @ ''/configs/box.train'')"

definition languages_of :: "filesystem \<Rightarrow> string list \<Rightarrow> string list" where
  "languages_of fs tessdata_paths =
     (let langs = foldl (\<lambda>acc dirpath.
                     if has_box_train fs dirpath
                     then append_new acc (get_languages_from_path fs dirpath)
                     else acc) [] tessdata_paths;
          langs = (if langs = []
                   then foldl (\<lambda>acc dirpath.
                          append_new acc (get_languages_from_path fs dirpath)) langs tessdata_paths
                   else langs)
      in sort langs)"

definition get_all_languages :: "filesystem \<Rightarrow> platform \<Rightarrow> string list" where
  "get_all_languages fs pl = languages_of fs (find_paths fs pl)"

section \<open>\<open>validate_tessdata_path\<close>\<close>

text \<open>
  The dictionary that is returned maps key strings to Python values; \<open>VError\<close> is the
  text of a caught exception.  Existence, the glob and the sizes go through
  \<open>p = Path(path)\<close>; \<open>os.access\<close> is asked with the string as it was given.  The size in megabytes is a float: \<open>round_mb total_size\<close>
  stands for \<open>round(total_size / (1024 * 1024), 2)\<close>.
\<close>

datatype pyval =
  VStr string | VBool bool | VInt int | VList "string list" | VFloat real | VError oserror

type_synonym info = "string \<Rightarrow> pyval option"

text \<open>\<open>sum(f.stat().st_size for f in traineddata_files)\<close>, the files being the
  entries of the \<open>Path\<close> \<open>p\<close> that the glob yields: the first failing \<open>stat\<close>
  raises.\<close>

fun sum_st_size :: "filesystem \<Rightarrow> string \<Rightarrow> string list \<Rightarrow> oserror + nat" where
  "sum_st_size fs p [] = Inr 0"
| "sum_st_size fs p (f # files) =
     (case stat_size fs (child p f) of
        Inl e \<Rightarrow> Inl e
      | Inr sz \<Rightarrow> (case sum_st_size fs p files of Inl e \<Rightarrow> Inl e | Inr t \<Rightarrow> Inr (sz + t)))"

definition initial_info :: "string \<Rightarrow> info" where
  "initial_info path =
     [''path'' \<mapsto> VStr path,
      ''valid'' \<mapsto> VBool False,
      ''exists'' \<mapsto> VBool False,
      ''readable'' \<mapsto> VBool False,
      ''language_count'' \<mapsto> VInt 0,
      ''languages'' \<mapsto> VList [],
      ''size_mb'' \<mapsto> VInt 0]"

definition validate_tessdata_path :: "(nat \<Rightarrow> real) \<Rightarrow> filesystem \<Rightarrow> string \<Rightarrow> info" where
  "validate_tessdata_path round_mb fs path =
     (let info = initial_info path;
          p = Path path
      in case pathlib_exists fs p of
           Inl e \<Rightarrow> info(''error'' \<mapsto> VError e)
         | Inr ex \<Rightarrow>
             (let info = info(''exists'' \<mapsto> VBool ex)
              in if ex
                 then (let rd = access_r fs path;
                           info = info(''readable'' \<mapsto> VBool rd)
                       in if rd
                          then (case glob_traineddata fs p of
                                  Inl e \<Rightarrow> info(''error'' \<mapsto> VError e)
                                | Inr traineddata_files \<Rightarrow>
                                    (let info = info(''valid'' \<mapsto> VBool (length traineddata_files > 0),
                                                     ''language_count'' \<mapsto> VInt (int (length traineddata_files)),
                                                     ''languages'' \<mapsto> VList (map path_stem traineddata_files))
                                     in case sum_st_size fs p traineddata_files of
                                          Inl e \<Rightarrow> info(''error'' \<mapsto> VError e)
                                        | Inr total_size \<Rightarrow> info(''size_mb'' \<mapsto> VFloat (round_mb total_size))))
                          else info)
                 else info))"

section \<open>Notions for the statements, and examples\<close>

text \<open>
  The validator as the specification words it: the path exists, is a directory, and some
  entry name ends with the suffix when compared without regard to case.
\<close>

definition spec_is_valid :: "filesystem \<Rightarrow> string \<Rightarrow> bool" where
  "spec_is_valid fs D \<longleftrightarrow>
     path_exists fs D \<and> is_dir fs D \<and>
     (case listdir fs D of
        Inl e \<Rightarrow> False
      | Inr names \<Rightarrow> list_ex (\<lambda>f. endswith (lower f) traineddata) names)"

text \<open>A file system given by a table; every other path does not exist.\<close>

definition fs_of :: "(string \<times> node) list \<Rightarrow> filesystem" where
  "fs_of table p = (case map_of table p of Some n \<Rightarrow> Inr n | None \<Rightarrow> Inl FileNotFoundError)"

text \<open>A data directory whose only data file carries the suffix in upper case.\<close>

definition upper_case_fs :: filesystem where
  "upper_case_fs = fs_of [(''/data/tess'', Dir True 4096 (Inr [''ENG.TRAINEDDATA'']))]"

text \<open>A file system in which the working directory is a data directory; the empty
  string is no path for the operating system.\<close>

definition cwd_fs :: filesystem where
  "cwd_fs = fs_of [(''.'', Dir True 4096 (Inr [''eng.traineddata'']))]"

text \<open>A system directory with one data file, a directory with three elsewhere, and a
  versioned system directory with two.\<close>

definition sample_fs :: filesystem where
  "sample_fs = fs_of
     [(''/usr/share/tessdata'', Dir True 4096 (Inr [''eng.traineddata'', ''configs''])),
      (''/opt/ocr/tessdata'',
         Dir True 4096 (Inr [''deu.traineddata'', ''eng.traineddata'', ''fra.traineddata''])),
      (''/usr/share/tesseract-ocr/5/tessdata'',
         Dir True 4096 (Inr [''eng.traineddata'', ''osd.traineddata'']))]"

text \<open>A finder with the default budget, and a world in which no probe finds anything
  and no cache file exists.\<close>

definition linux_finder :: finder where
  "linux_finder = \<lparr>timeout = 8, os_type = ''linux''\<rparr>"

definition quiet_world :: world where
  "quiet_world =
     \<lparr>w_fs = sample_fs, w_environ = (\<lambda>var. None), w_cwd = ''/'',
      w_cache = Absent, w_cache_writable = True,
      w_start = 1000, w_load = 1000, w_guard = (\<lambda>i. 1000 + real i), w_save = 1006,
      w_tesseract_cmd = Inr [], w_common_paths = Inr [],
      w_binary_relative = Inr [], w_package_locations = Inr []\<rparr>"

text \<open>Cache records: one whose stored time stamp is the epoch, one whose only path is
  gone, one with a path that is gone and one that is still a data directory.\<close>

definition old_stamp_record :: cache_record where
  "old_stamp_record =
     \<lparr>rec_paths = [''/usr/share/tessdata''], rec_timestamp = 0, rec_os = ''linux''\<rparr>"

definition gone_record :: cache_record where
  "gone_record =
     \<lparr>rec_paths = [''/srv/gone/tessdata''], rec_timestamp = 990, rec_os = ''linux''\<rparr>"

definition mixed_record :: cache_record where
  "mixed_record =
     \<lparr>rec_paths = [''/srv/gone/tessdata'', ''/opt/ocr/tessdata''],
      rec_timestamp = 990, rec_os = ''linux''\<rparr>"

text \<open>The names of the probes in the order of the method table, the state in which the
  search starts, and the state in which the \<open>j\<close>-th test is made when every test
  before it let its probe run.\<close>

definition probe_order :: "string list" where
  "probe_order =
     [''env_vars'', ''tesseract_cmd'', ''common_paths'', ''binary_relative'', ''package_locations'']"

definition initial_state :: search_state where
  "initial_state = \<lparr>found_paths = [], launched = []\<rparr>"

definition state_before :: "finder \<Rightarrow> world \<Rightarrow> nat \<Rightarrow> search_state" where
  "state_before f w j = run_methods f w 0 (take j (methods w)) initial_state"

text \<open>A world in which the environment names the directory with three data files and
  the engine reports the two system directories.\<close>

definition busy_world :: world where
  "busy_world =
     quiet_world
       \<lparr>w_environ := [''TESSDATA_PREFIX'' \<mapsto> ''/opt/ocr/tessdata''],
        w_tesseract_cmd := Inr [''/usr/share/tessdata'', ''/usr/share/tesseract-ocr/5/tessdata''],
        w_common_paths := Inr [''/usr/share/tessdata'']\<rparr>"

text \<open>What a launched probe adds to the candidates: its paths, or nothing when it
  raises.  A world in which every reading of the clock is five seconds after the one
  before.\<close>

definition yielded :: "probe_outcome \<Rightarrow> string list" where
  "yielded outcome = (case outcome of Inl e \<Rightarrow> [] | Inr paths \<Rightarrow> paths)"

definition slow_world :: world where
  "slow_world = quiet_world\<lparr>w_guard := (\<lambda>i. 1000 + 5 * real i)\<rparr>"

text \<open>A probe yields nothing when it raises or returns the empty list.\<close>

definition yields_nothing :: "probe_outcome \<Rightarrow> bool" where
  "yields_nothing outcome = (case outcome of Inl e \<Rightarrow> True | Inr paths \<Rightarrow> paths = [])"

text \<open>A platform without environment variables, engine binaries or search results, and
  the quiet world with a cache file that is young and names a data directory.\<close>

definition bare_platform :: platform where
  "bare_platform =
     \<lparr>p_environ = (\<lambda>var. None), p_binaries = [], p_realpath = (\<lambda>p. p),
      p_from_tesseract = [], p_search = [], p_home = ''/home/ada''\<rparr>"

definition cached_world :: world where
  "cached_world = quiet_world\<lparr>w_cache := Present 990 (Parsed mixed_record)\<rparr>"

text \<open>The score of a path is the first component of its key; the data files of a
  directory, which is named as \<open>Path\<close> reads the string, are the entries of its
  listing whose name ends with the suffix.\<close>

definition score :: "filesystem \<Rightarrow> string \<Rightarrow> int" where
  "score fs path = fst (priority_key fs path)"

definition data_file_count :: "filesystem \<Rightarrow> string \<Rightarrow> nat" where
  "data_file_count fs path =
     (case fs (Path path) of
        Inr (Dir r sz (Inr names)) \<Rightarrow> length (filter (\<lambda>f. endswith f traineddata) names)
      | _ \<Rightarrow> 0)"

text \<open>Two data directories whose names differ in case only; a data directory that is
  reached through a symbolic link \<open>/opt/link\<close> to \<open>/srv/pkg/bin\<close>; and the sample
  file system without links, where every spelling of a path resolves as its normal form
  does.\<close>

definition case_fs :: filesystem where
  "case_fs = fs_of
     [(''/data/Tess'', Dir True 4096 (Inr [''eng.traineddata''])),
      (''/data/tess'', Dir True 4096 (Inr [''fra.traineddata'']))]"

definition link_fs :: filesystem where
  "link_fs = fs_of
     [(''/srv/pkg/tessdata'', Dir True 4096 (Inr [''eng.traineddata''])),
      (''/opt/link/../tessdata'', Dir True 4096 (Inr [''eng.traineddata'']))]"

definition plain_fs :: filesystem where
  "plain_fs p = sample_fs (normpath p)"

text \<open>The environment variable names the directory with three data files, and the
  search of common paths finds the system directory with one: as a world of the fast
  finder and as a platform of the exhaustive one.\<close>

definition env_world :: world where
  "env_world =
     quiet_world
       \<lparr>w_environ := [''TESSDATA_PREFIX'' \<mapsto> ''/opt/ocr/tessdata''],
        w_common_paths := Inr [''/usr/share/tessdata'']\<rparr>"

text \<open>The same world with a young cache file whose only path is gone.\<close>

definition stale_world :: world where
  "stale_world = env_world\<lparr>w_cache := Present 990 (Parsed gone_record)\<rparr>"

definition env_platform :: platform where
  "env_platform =
     bare_platform
       \<lparr>p_environ := [''TESSDATA_PREFIX'' \<mapsto> ''/opt/ocr/tessdata''],
        p_search := [''/usr/share/tessdata'']\<rparr>"

text \<open>The language codes found in a list of directories, as a set.\<close>

definition languages_in :: "filesystem \<Rightarrow> string list \<Rightarrow> string set" where
  "languages_in fs dirs = (\<Union>d\<in>set dirs. set (get_languages_from_path fs d))"

text \<open>Two data directories of which only the first holds \<open>configs/box.train\<close>, found
  by the search; and a single data directory with two data files.\<close>

definition box_fs :: filesystem where
  "box_fs = fs_of
     [(''/usr/share/tessdata'', Dir True 4096 (Inr [''eng.traineddata'', ''configs''])),
      (''/usr/share/tessdata/configs/box.train'', File True 120),
      (''/opt/ocr/tessdata'',
         Dir True 4096 (Inr [''deu.traineddata'', ''eng.traineddata'', ''fra.traineddata'']))]"

definition box_platform :: platform where
  "box_platform = bare_platform\<lparr>p_search := [''/usr/share/tessdata'', ''/opt/ocr/tessdata'']\<rparr>"

definition one_dir_fs :: filesystem where
  "one_dir_fs = fs_of
     [(''/usr/share/tessdata'',
         Dir True 4096 (Inr [''fra.traineddata'', ''configs'', ''eng.traineddata'']))]"

definition one_dir_platform :: platform where
  "one_dir_platform = bare_platform\<lparr>p_search := [''/usr/share/tessdata'']\<rparr>"

text \<open>The keys that every validation record has.\<close>

definition info_keys :: "string set" where
  "info_keys =
     {''path'', ''valid'', ''exists'', ''readable'', ''language_count'', ''languages'', ''size_mb''}"

text \<open>A data directory with one data file of four megabytes, and the size in
  megabytes for sizes that need no rounding.\<close>

definition sized_fs :: filesystem where
  "sized_fs = fs_of
     [(''/opt/t'', Dir True 4096 (Inr [''eng.traineddata'', ''README''])),
      (''/opt/t/eng.traineddata'', File True 4194304),
      (''/opt/t/README'', File True 100)]"

definition megabytes :: "nat \<Rightarrow> real" where
  "megabytes n = real n / 1048576"

section \<open>Strings and entry names\<close>

lemma endswith_iff: "endswith s sfx \<longleftrightarrow> (\<exists>pre. s = pre @ sfx)"
proof
  assume "endswith s sfx"
  then have "s = take (length s - length sfx) s @ sfx"
    unfolding endswith_def by (metis append_take_drop_id)
  then show "\<exists>pre. s = pre @ sfx" ..
next
  assume "\<exists>pre. s = pre @ sfx"
  then show "endswith s sfx" by (auto simp: endswith_def)
qed

lemma rfind_None: "rfind c s = None \<longleftrightarrow> c \<notin> set s"
  by (induction s) (auto split: option.splits)

lemma rfind_append: "c \<notin> set ys \<Longrightarrow> rfind c (xs @ c # ys) = Some (length xs)"
  by (induction xs) (auto simp: rfind_None split: option.splits)

text \<open>The pathlib suffix is \<open>.traineddata\<close> exactly when the name ends with it and
  has something before it.\<close>

lemma path_suffix_traineddata:
  "path_suffix f = traineddata \<longleftrightarrow> endswith f traineddata \<and> length traineddata < length f"
proof
  assume h: "path_suffix f = traineddata"
  then obtain i where i: "rfind CHR ''.'' f = Some i" "0 < i" "i + 1 < length f"
      "drop i f = traineddata"
    by (auto simp: path_suffix_def traineddata_def split: option.splits if_splits)
  have f: "f = take i f @ traineddata" using i(4) by (metis append_take_drop_id)
  moreover have "length (take i f) = i" using i(3) by simp
  ultimately have "length f = i + length traineddata" by (metis length_append)
  with i(2) f show "endswith f traineddata \<and> length traineddata < length f"
    by (auto simp: endswith_iff)
next
  assume h: "endswith f traineddata \<and> length traineddata < length f"
  then obtain pre where pre: "f = pre @ traineddata"
    unfolding endswith_iff by blast
  have ne: "pre \<noteq> []"
  proof
    assume "pre = []"
    with pre have "f = traineddata" by simp
    with h show False by simp
  qed
  have r: "rfind CHR ''.'' (pre @ CHR ''.'' # ''traineddata'') = Some (length pre)"
    by (rule rfind_append) simp
  have f: "f = pre @ CHR ''.'' # ''traineddata''" using pre by (simp add: traineddata_def)
  have "path_suffix (pre @ CHR ''.'' # ''traineddata'') = ''.traineddata''"
    unfolding path_suffix_def r using ne by simp
  then show "path_suffix f = traineddata"
    unfolding f traineddata_def .
qed

section \<open>The validators\<close>

lemma valid_dir_iff:
  "is_valid_tessdata_dir fs D \<longleftrightarrow>
     (\<exists>r sz names. fs D = Inr (Dir r sz (Inr names)) \<and>
        list_ex (\<lambda>f. endswith f traineddata) names)"
  by (auto simp: is_valid_tessdata_dir_def listdir_def split: sum.splits node.splits)

lemma valid_quick_iff:
  "is_valid_tessdata_quick fs D \<longleftrightarrow>
     (\<exists>r sz names. fs (Path D) = Inr (Dir r sz (Inr names)) \<and>
        list_ex (\<lambda>f. endswith f traineddata \<and> length traineddata < length f) names)"
  by (auto simp: is_valid_tessdata_quick_def pathlib_is_dir_def listdir_def Let_def
      path_suffix_traineddata split: sum.splits node.splits)

text \<open>The validator on the sample file system.\<close>

lemma sample_valid:
  "is_valid_tessdata_quick sample_fs ''/usr/share/tessdata''"
  "is_valid_tessdata_quick sample_fs ''/opt/ocr/tessdata''"
  "\<not> is_valid_tessdata_quick sample_fs ''/srv/gone/tessdata''"
  by code_simp+

text \<open>
  Claim C1, as the code has it.  Both validators are total: every \<open>OSError\<close> is a
  value that leads to \<open>False\<close>.  \<open>_is_valid_tessdata_dir\<close> is true exactly when the
  string it is given resolves to a directory whose listing succeeds and holds a name
  that ends with \<open>.traineddata\<close>, the comparison being case-sensitive.
  \<open>_is_valid_tessdata_quick\<close> is true exactly when the path that \<open>Path\<close> makes of the
  string (without repeated or trailing slashes and \<open>.\<close> components, the empty string
  read as the working directory) resolves to a directory whose listing succeeds and
  holds such a name that is longer than the suffix.  So each of them is false when its
  path does not resolve (it does not exist, or a permission error stops the lookup), is
  a file, is a directory that may not be listed, or is a directory without such a name.
\<close>

theorem validators_case_sensitive:
  "(is_valid_tessdata_dir fs D \<longleftrightarrow>
      (\<exists>r sz names. fs D = Inr (Dir r sz (Inr names)) \<and>
         list_ex (\<lambda>f. endswith f traineddata) names)) \<and>
   (is_valid_tessdata_quick fs D \<longleftrightarrow>
      (\<exists>r sz names. fs (Path D) = Inr (Dir r sz (Inr names)) \<and>
         list_ex (\<lambda>f. endswith f traineddata \<and> length traineddata < length f) names))"
  using valid_dir_iff [of fs D] valid_quick_iff [of fs D] by blast

theorem validators_case_sensitive_witness:
  "is_valid_tessdata_dir sample_fs ''/usr/share/tessdata'' \<and>
   is_valid_tessdata_quick sample_fs ''/usr/share/tessdata'' \<and>
   \<not> is_valid_tessdata_dir sample_fs ''/usr/share'' \<and>
   \<not> is_valid_tessdata_quick sample_fs ''/usr/share'' \<and>
   \<not> is_valid_tessdata_dir cwd_fs [] \<and>
   is_valid_tessdata_quick cwd_fs []"
proof -
  have P: "Path ''/usr/share/tessdata'' = ''/usr/share/tessdata''"
      "Path ''/usr/share'' = ''/usr/share''"
      "Path [] = ''.''"
    by code_simp+
  show ?thesis
    using validators_case_sensitive [of sample_fs "''/usr/share/tessdata''"]
      validators_case_sensitive [of sample_fs "''/usr/share''"]
      validators_case_sensitive [of cwd_fs "[]"]
    by (auto simp add: P sample_fs_def cwd_fs_def fs_of_def traineddata_def endswith_def)
qed

text \<open>
  Claim C1 as it is worded fails: a directory whose only data file is named
  \<open>ENG.TRAINEDDATA\<close> meets the specification's condition, the comparison there being
  case-insensitive, and both validators reject it.
\<close>

theorem validators_reject_upper_case_suffix:
  "spec_is_valid upper_case_fs ''/data/tess'' \<and>
   \<not> is_valid_tessdata_quick upper_case_fs ''/data/tess'' \<and>
   \<not> is_valid_tessdata_dir upper_case_fs ''/data/tess''"
  by code_simp

section \<open>The cache\<close>

text \<open>
  Claim C3, as the code has it.  The age of the cache is the current time minus the
  modification time of the cache file.  When that age exceeds six hours, \<open>_load_cache\<close>
  returns the empty list whatever the file holds, and the search that asked for the
  cache goes on as a fresh search.
\<close>

theorem expired_cache_is_miss:
  assumes "w_cache w = Present st_mtime content"
    and "cache_max_age < w_load w - st_mtime"
  shows "load_cache (w_fs w) (w_load w) (w_cache w) = [] \<and>
         find_tessdata_paths f w True = fresh_search f w True"
  using assms by (simp add: load_cache_def find_tessdata_paths_def)

theorem expired_cache_is_miss_witness:
  "load_cache sample_fs 100000 (Present 900 (Parsed old_stamp_record)) = [] \<and>
   find_tessdata_paths linux_finder
      (quiet_world\<lparr>w_cache := Present 900 (Parsed old_stamp_record), w_load := 100000\<rparr>) True =
   fresh_search linux_finder
      (quiet_world\<lparr>w_cache := Present 900 (Parsed old_stamp_record), w_load := 100000\<rparr>) True"
  using expired_cache_is_miss
    [of "quiet_world\<lparr>w_cache := Present 900 (Parsed old_stamp_record), w_load := 100000\<rparr>"
      900 "Parsed old_stamp_record" linux_finder]
  by (simp add: quiet_world_def cache_max_age_def)

text \<open>
  Claim C3 as it is worded fails: the time stamp stored in the record is never read.  A
  cache file written a moment ago whose record carries the time stamp 0 is more than
  six hours old by its stored time stamp, and it is loaded.
\<close>

theorem fresh_file_with_old_stamp_is_hit:
  "cache_max_age < 100000 - rec_timestamp old_stamp_record \<and>
   load_cache sample_fs 100000 (Present 100000 (Parsed old_stamp_record)) =
     [''/usr/share/tessdata'']"
  by (simp add: load_cache_def cache_max_age_def old_stamp_record_def sample_valid)

text \<open>The loop keeps the names it has recorded, and the environment probe is the first
  that it launches.\<close>

lemma launched_extends: "\<exists>xs. launched (run_methods f w i ms s) = launched s @ xs"
proof (induction ms arbitrary: i s)
  case Nil
  then show ?case by simp
next
  case (Cons m ms)
  obtain name outcome where m: "m = (name, outcome)" by (cases m)
  show ?case
  proof (cases "stop_probing f w i s")
    case True
    then show ?thesis by (simp add: m)
  next
    case False
    define s1 where "s1 = (case outcome of
                Inr paths \<Rightarrow>
                  s\<lparr>found_paths := set_update (found_paths s) paths,
                    launched := launched s @ [name]\<rparr>
              | Inl e \<Rightarrow> s\<lparr>launched := launched s @ [name]\<rparr>)"
    have step: "run_methods f w i (m # ms) s = run_methods f w (Suc i) ms s1"
      using False by (simp add: m s1_def)
    have l1: "launched s1 = launched s @ [name]"
      by (simp add: s1_def split: sum.splits)
    from Cons.IH [of "Suc i" s1] obtain xs where
      "launched (run_methods f w (Suc i) ms s1) = launched s1 @ xs"
      by blast
    then have "launched (run_methods f w i (m # ms) s) = launched s @ (name # xs)"
      by (simp add: step l1)
    then show ?thesis by blast
  qed
qed

lemma first_probe_launched:
  assumes "\<not> stop_probing f w 0 initial_state"
  shows "take 1 (launched (run_methods f w 0 (methods w) initial_state)) = [''env_vars'']"
proof -
  obtain outcome rest where m: "methods w = (''env_vars'', outcome) # rest"
    by (simp add: methods_def)
  define s1 where "s1 = (case outcome of
                Inr paths \<Rightarrow>
                  initial_state\<lparr>found_paths := set_update (found_paths initial_state) paths,
                    launched := launched initial_state @ [''env_vars'']\<rparr>
              | Inl e \<Rightarrow> initial_state\<lparr>launched := launched initial_state @ [''env_vars'']\<rparr>)"
  have step: "run_methods f w 0 (methods w) initial_state = run_methods f w (Suc 0) rest s1"
    using assms by (simp add: m s1_def)
  have l1: "launched s1 = [''env_vars'']"
    by (simp add: s1_def initial_state_def split: sum.splits)
  obtain xs where "launched (run_methods f w (Suc 0) rest s1) = launched s1 @ xs"
    using launched_extends by blast
  then show ?thesis
    by (simp add: step l1)
qed

text \<open>
  Claim C4.  For a cache file that is young enough and holds a record, \<open>_load_cache\<close>
  returns the stored paths that pass the validator, in their order; none of them is a
  path that does not exist.  When some path passes, the surviving paths are the result
  and no probe is launched.  When none passes, \<open>find_tessdata_paths\<close> does not return
  the empty list of the cache: it runs the loop of the probes from the start, its
  result is what the finalizing step makes of the candidates the loop found, the cache
  is written when that result is not empty, and unless the time budget is exceeded at
  the first test the environment probe is launched.
\<close>

theorem cache_load_revalidates:
  assumes "w_cache w = Present st_mtime (Parsed data)"
    and "w_load w - st_mtime \<le> cache_max_age"
  shows "load_cache (w_fs w) (w_load w) (w_cache w) =
           filter (is_valid_tessdata_quick (w_fs w)) (rec_paths data) \<and>
         set (load_cache (w_fs w) (w_load w) (w_cache w)) \<subseteq>
           {p. path_exists (w_fs w) (Path p)} \<and>
         find_tessdata_paths f w True =
           (if filter (is_valid_tessdata_quick (w_fs w)) (rec_paths data) = []
            then \<lparr>result =
                    finalize_paths (w_fs w)
                      (found_paths (run_methods f w 0 (methods w) initial_state)),
                  cache_after =
                    (if finalize_paths (w_fs w)
                          (found_paths (run_methods f w 0 (methods w) initial_state)) \<noteq> []
                     then save_cache (w_cache_writable w) (w_save w) (os_type f)
                            (finalize_paths (w_fs w)
                               (found_paths (run_methods f w 0 (methods w) initial_state)))
                            (w_cache w)
                     else w_cache w),
                  probes_launched = launched (run_methods f w 0 (methods w) initial_state)\<rparr>
            else \<lparr>result = filter (is_valid_tessdata_quick (w_fs w)) (rec_paths data),
                  cache_after = w_cache w, probes_launched = []\<rparr>) \<and>
         (filter (is_valid_tessdata_quick (w_fs w)) (rec_paths data) = [] \<and>
          (if w_start w \<noteq> 0 then w_guard w 0 - w_start w else 0) \<le> timeout f \<longrightarrow>
            take 1 (probes_launched (find_tessdata_paths f w True)) = [''env_vars''])"
proof -
  let ?survivors = "filter (is_valid_tessdata_quick (w_fs w)) (rec_paths data)"
  have l: "load_cache (w_fs w) (w_load w) (w_cache w) = ?survivors"
    using assms by (simp add: load_cache_def Let_def)
  have "is_valid_tessdata_quick (w_fs w) p \<Longrightarrow> path_exists (w_fs w) (Path p)" for p
    by (auto simp: valid_quick_iff path_exists_def)
  then have s: "set (load_cache (w_fs w) (w_load w) (w_cache w)) \<subseteq>
                  {p. path_exists (w_fs w) (Path p)}"
    unfolding l by auto
  have eq: "find_tessdata_paths f w True =
           (if ?survivors = []
            then \<lparr>result =
                    finalize_paths (w_fs w)
                      (found_paths (run_methods f w 0 (methods w) initial_state)),
                  cache_after =
                    (if finalize_paths (w_fs w)
                          (found_paths (run_methods f w 0 (methods w) initial_state)) \<noteq> []
                     then save_cache (w_cache_writable w) (w_save w) (os_type f)
                            (finalize_paths (w_fs w)
                               (found_paths (run_methods f w 0 (methods w) initial_state)))
                            (w_cache w)
                     else w_cache w),
                  probes_launched = launched (run_methods f w 0 (methods w) initial_state)\<rparr>
            else \<lparr>result = ?survivors, cache_after = w_cache w, probes_launched = []\<rparr>)"
    by (simp add: find_tessdata_paths_def fresh_search_def initial_state_def Let_def l)
  have first: "take 1 (probes_launched (find_tessdata_paths f w True)) = [''env_vars'']"
    if none: "?survivors = []"
      and time: "(if w_start w \<noteq> 0 then w_guard w 0 - w_start w else 0) \<le> timeout f"
  proof -
    have "\<not> stop_probing f w 0 initial_state"
      using time
      by (simp add: stop_probing_def is_timeout_def elapsed_def initial_state_def not_less)
    from first_probe_launched [OF this] show ?thesis
      unfolding eq using none by simp
  qed
  show ?thesis
  proof (intro conjI)
    show "load_cache (w_fs w) (w_load w) (w_cache w) = ?survivors" by (rule l)
    show "set (load_cache (w_fs w) (w_load w) (w_cache w)) \<subseteq>
            {p. path_exists (w_fs w) (Path p)}" by (rule s)
    show "find_tessdata_paths f w True =
           (if ?survivors = []
            then \<lparr>result =
                    finalize_paths (w_fs w)
                      (found_paths (run_methods f w 0 (methods w) initial_state)),
                  cache_after =
                    (if finalize_paths (w_fs w)
                          (found_paths (run_methods f w 0 (methods w) initial_state)) \<noteq> []
                     then save_cache (w_cache_writable w) (w_save w) (os_type f)
                            (finalize_paths (w_fs w)
                               (found_paths (run_methods f w 0 (methods w) initial_state)))
                            (w_cache w)
                     else w_cache w),
                  probes_launched = launched (run_methods f w 0 (methods w) initial_state)\<rparr>
            else \<lparr>result = ?survivors, cache_after = w_cache w, probes_launched = []\<rparr>)"
      by (rule eq)
    show "?survivors = [] \<and>
          (if w_start w \<noteq> 0 then w_guard w 0 - w_start w else 0) \<le> timeout f \<longrightarrow>
            take 1 (probes_launched (find_tessdata_paths f w True)) = [''env_vars'']"
      using first by blast
  qed
qed

theorem cache_load_revalidates_witness:
  "load_cache sample_fs 1000 (Present 990 (Parsed mixed_record)) = [''/opt/ocr/tessdata''] \<and>
   result (find_tessdata_paths linux_finder cached_world True) = [''/opt/ocr/tessdata''] \<and>
   probes_launched (find_tessdata_paths linux_finder cached_world True) = [] \<and>
   load_cache sample_fs 1000 (Present 990 (Parsed gone_record)) = [] \<and>
   probes_launched (find_tessdata_paths linux_finder stale_world True) = probe_order \<and>
   result (find_tessdata_paths linux_finder stale_world True) =
     [''/usr/share/tessdata'', ''/opt/ocr/tessdata'']"
proof -
  have env: "check_environment_vars sample_fs
               [''TESSDATA_PREFIX'' \<mapsto> ''/opt/ocr/tessdata''] ''/'' = [''/opt/ocr/tessdata'']"
    by code_simp
  have fin: "finalize_paths sample_fs [''/opt/ocr/tessdata'', ''/usr/share/tessdata''] =
               [''/usr/share/tessdata'', ''/opt/ocr/tessdata'']"
    by code_simp
  show ?thesis
    using cache_load_revalidates [of cached_world 990 mixed_record linux_finder]
      cache_load_revalidates [of stale_world 990 gone_record linux_finder]
    by (simp add: cached_world_def stale_world_def env_world_def quiet_world_def
        linux_finder_def cache_max_age_def mixed_record_def gone_record_def sample_valid
        load_cache_def methods_def stop_probing_def is_timeout_def elapsed_def
        set_update_def initial_state_def probe_order_def Let_def env fin)
qed

section \<open>The orchestrator\<close>

text \<open>The loop launches a prefix of its methods: each launched probe found the test
  false, and the loop stops at the first test that holds.\<close>

lemma run_methods_trace:
  "\<exists>k\<le>length ms.
      run_methods f w i ms s = run_methods f w i (take k ms) s \<and>
      launched (run_methods f w i ms s) = launched s @ map fst (take k ms) \<and>
      (\<forall>j<k. \<not> stop_probing f w (i + j) (run_methods f w i (take j ms) s)) \<and>
      (k < length ms \<longrightarrow> stop_probing f w (i + k) (run_methods f w i (take k ms) s))"
proof (induction ms arbitrary: i s)
  case Nil
  then show ?case by simp
next
  case (Cons m ms)
  obtain name outcome where m: "m = (name, outcome)" by (cases m)
  show ?case
  proof (cases "stop_probing f w i s")
    case True
    then have "run_methods f w i (m # ms) s = run_methods f w i (take 0 (m # ms)) s \<and>
      launched (run_methods f w i (m # ms) s) = launched s @ map fst (take 0 (m # ms)) \<and>
      (\<forall>j<0. \<not> stop_probing f w (i + j) (run_methods f w i (take j (m # ms)) s)) \<and>
      (0 < length (m # ms) \<longrightarrow> stop_probing f w (i + 0) (run_methods f w i (take 0 (m # ms)) s))"
      by (simp add: m)
    then show ?thesis by blast
  next
    case False
    define s1 where "s1 = (case outcome of
                Inr paths \<Rightarrow>
                  s\<lparr>found_paths := set_update (found_paths s) paths,
                    launched := launched s @ [name]\<rparr>
              | Inl e \<Rightarrow> s\<lparr>launched := launched s @ [name]\<rparr>)"
    have step: "run_methods f w i (m # xs) s = run_methods f w (Suc i) xs s1" for xs
      using False by (simp add: m s1_def)
    have l1: "launched s1 = launched s @ [name]"
      by (simp add: s1_def split: sum.splits)
    from Cons.IH [of "Suc i" s1] obtain k where k: "k \<le> length ms"
      "run_methods f w (Suc i) ms s1 = run_methods f w (Suc i) (take k ms) s1"
      "launched (run_methods f w (Suc i) ms s1) = launched s1 @ map fst (take k ms)"
      "\<forall>j<k. \<not> stop_probing f w (Suc i + j) (run_methods f w (Suc i) (take j ms) s1)"
      "k < length ms \<longrightarrow> stop_probing f w (Suc i + k) (run_methods f w (Suc i) (take k ms) s1)"
      by blast
    have a: "Suc k \<le> length (m # ms)" using k(1) by simp
    have b: "run_methods f w i (m # ms) s = run_methods f w i (take (Suc k) (m # ms)) s"
      using k(2) by (simp add: step)
    have c: "launched (run_methods f w i (m # ms) s) = launched s @ map fst (take (Suc k) (m # ms))"
      unfolding step using k(3) by (simp add: l1 m)
    have d: "\<not> stop_probing f w (i + j) (run_methods f w i (take j (m # ms)) s)" if "j < Suc k" for j
    proof (cases j)
      case 0
      then show ?thesis using False by simp
    next
      case (Suc j')
      with that have "j' < k" by simp
      with k(4) have "\<not> stop_probing f w (Suc i + j') (run_methods f w (Suc i) (take j' ms) s1)"
        by blast
      then show ?thesis by (simp add: Suc step)
    qed
    have e: "Suc k < length (m # ms) \<longrightarrow>
        stop_probing f w (i + Suc k) (run_methods f w i (take (Suc k) (m # ms)) s)"
      using k(5) by (simp add: step)
    from a b c d e show ?thesis by blast
  qed
qed

lemma distinct_set_update: "distinct found \<Longrightarrow> distinct (set_update found paths)"
  unfolding set_update_def by (induction paths arbitrary: found) auto

lemma distinct_run_methods:
  "distinct (found_paths s) \<Longrightarrow> distinct (found_paths (run_methods f w i ms s))"
proof (induction ms arbitrary: i s)
  case Nil
  then show ?case by simp
next
  case (Cons m ms)
  obtain name outcome where m: "m = (name, outcome)" by (cases m)
  show ?case
  proof (cases "stop_probing f w i s")
    case True
    then show ?thesis using Cons.prems by (simp add: m)
  next
    case False
    then show ?thesis
      using Cons.prems
      by (cases outcome) (simp_all add: m Cons.IH distinct_set_update)
  qed
qed

lemma map_fst_methods: "map fst (methods w) = probe_order"
  by (simp add: methods_def probe_order_def)

text \<open>While no test holds, the candidates are what the launched probes yielded, each
  kept once, in the order of arrival.\<close>

lemma run_methods_found:
  "\<forall>j<length ms. \<not> stop_probing f w (i + j) (run_methods f w i (take j ms) s) \<Longrightarrow>
     found_paths (run_methods f w i ms s) =
       foldl (\<lambda>acc outcome. set_update acc (yielded outcome)) (found_paths s) (map snd ms)"
proof (induction ms arbitrary: i s)
  case Nil
  then show ?case by simp
next
  case (Cons m ms)
  obtain name outcome where m: "m = (name, outcome)" by (cases m)
  from Cons.prems have "\<not> stop_probing f w (i + 0) (run_methods f w i (take 0 (m # ms)) s)"
    by (metis length_greater_0_conv list.distinct(1))
  then have ns: "\<not> stop_probing f w i s" by simp
  define s1 where "s1 = (case outcome of
                Inr paths \<Rightarrow>
                  s\<lparr>found_paths := set_update (found_paths s) paths,
                    launched := launched s @ [name]\<rparr>
              | Inl e \<Rightarrow> s\<lparr>launched := launched s @ [name]\<rparr>)"
  have step: "run_methods f w i (m # xs) s = run_methods f w (Suc i) xs s1" for xs
    using ns by (simp add: m s1_def)
  have f1: "found_paths s1 = set_update (found_paths s) (yielded outcome)"
    by (cases outcome) (simp_all add: s1_def yielded_def set_update_def)
  have "\<forall>j<length ms. \<not> stop_probing f w (Suc i + j) (run_methods f w (Suc i) (take j ms) s1)"
  proof (intro allI impI)
    fix j
    assume "j < length ms"
    then have "Suc j < length (m # ms)" by simp
    with Cons.prems
    have "\<not> stop_probing f w (i + Suc j) (run_methods f w i (take (Suc j) (m # ms)) s)"
      by blast
    then show "\<not> stop_probing f w (Suc i + j) (run_methods f w (Suc i) (take j ms) s1)"
      by (simp add: step)
  qed
  from Cons.IH [OF this] show ?case
    unfolding step by (simp add: f1 m)
qed

text \<open>
  Claim C5.  On a cache miss the probes that are launched are the first \<open>k\<close> of
  environment, binary invocation, common paths, binary-relative, package locations, in
  that order.  Before each of them the test was made and was false: the elapsed time
  (the reading of the clock minus the start, or zero when the start is zero) did not
  exceed the time budget, and fewer than three candidates were found.  When \<open>k\<close> is
  less than five, the test held at the \<open>k\<close>-th reading: the elapsed time exceeded
  the budget or three candidates were found, so that none of the remaining probes was
  launched.  The candidates counted at each test are distinct: they are the paths that
  the probes launched so far have yielded.
\<close>

theorem probes_in_order_and_guarded:
  assumes "use_cache \<longrightarrow> load_cache (w_fs w) (w_load w) (w_cache w) = []"
  shows "\<exists>k\<le>length probe_order.
           probes_launched (find_tessdata_paths f w use_cache) = take k probe_order \<and>
           (\<forall>j<k. (if w_start w \<noteq> 0 then w_guard w j - w_start w else 0) \<le> timeout f \<and>
                   length (found_paths (state_before f w j)) < 3) \<and>
           (k < length probe_order \<longrightarrow>
              timeout f < (if w_start w \<noteq> 0 then w_guard w k - w_start w else 0) \<or>
              3 \<le> length (found_paths (state_before f w k))) \<and>
           (\<forall>j\<le>k. distinct (found_paths (state_before f w j)) \<and>
                   found_paths (state_before f w j) =
                     foldl (\<lambda>acc outcome. set_update acc (yielded outcome)) []
                       (take j (map snd (methods w))))"
proof -
  have fresh: "find_tessdata_paths f w use_cache = fresh_search f w use_cache"
    using assms by (simp add: find_tessdata_paths_def)
  from run_methods_trace [of "methods w" f w 0 initial_state]
  obtain k where k: "k \<le> length (methods w)"
      "launched (run_methods f w 0 (methods w) initial_state) =
         launched initial_state @ map fst (take k (methods w))"
      "\<forall>j<k. \<not> stop_probing f w (0 + j) (run_methods f w 0 (take j (methods w)) initial_state)"
      "k < length (methods w) \<longrightarrow>
         stop_probing f w (0 + k) (run_methods f w 0 (take k (methods w)) initial_state)"
    by blast
  have len: "length (methods w) = length probe_order"
    by (simp add: methods_def probe_order_def)
  have K: "k \<le> length probe_order"
    using k(1) len by simp
  have "probes_launched (fresh_search f w use_cache) = take k probe_order"
    using k(2)
    by (simp add: fresh_search_def Let_def initial_state_def take_map [symmetric]
        map_fst_methods)
  then have L: "probes_launched (find_tessdata_paths f w use_cache) = take k probe_order"
    by (simp add: fresh)
  have D: "distinct (found_paths (state_before f w j))" for j
    unfolding state_before_def by (rule distinct_run_methods) (simp add: initial_state_def)
  have G: "(if w_start w \<noteq> 0 then w_guard w j - w_start w else 0) \<le> timeout f \<and>
           length (found_paths (state_before f w j)) < 3" if "j < k" for j
  proof -
    from k(3) that have "\<not> stop_probing f w j (state_before f w j)"
      by (simp add: state_before_def)
    then show ?thesis
      by (simp add: stop_probing_def is_timeout_def elapsed_def not_less not_le)
  qed
  have S: "timeout f < (if w_start w \<noteq> 0 then w_guard w k - w_start w else 0) \<or>
           3 \<le> length (found_paths (state_before f w k))" if "k < length probe_order"
  proof -
    from k(4) that len have "stop_probing f w k (state_before f w k)"
      by (simp add: state_before_def)
    then show ?thesis
      by (simp add: stop_probing_def is_timeout_def elapsed_def)
  qed
  have F: "found_paths (state_before f w j) =
             foldl (\<lambda>acc outcome. set_update acc (yielded outcome)) []
               (take j (map snd (methods w)))" if "j \<le> k" for j
  proof -
    have "\<forall>j'<length (take j (methods w)).
            \<not> stop_probing f w (0 + j')
                (run_methods f w 0 (take j' (take j (methods w))) initial_state)"
    proof (intro allI impI)
      fix j'
      assume "j' < length (take j (methods w))"
      then have lt: "j' < j" by simp
      with that have "j' < k" by simp
      with k(3)
      have "\<not> stop_probing f w (0 + j') (run_methods f w 0 (take j' (methods w)) initial_state)"
        by blast
      moreover from lt have "take j' (take j (methods w)) = take j' (methods w)"
        by (simp add: min_def)
      ultimately show "\<not> stop_probing f w (0 + j')
                (run_methods f w 0 (take j' (take j (methods w))) initial_state)"
        by simp
    qed
    from run_methods_found [OF this] show ?thesis
      by (simp add: state_before_def initial_state_def take_map)
  qed
  from K L G S D F show ?thesis by blast
qed

theorem probes_in_order_and_guarded_witness:
  "probes_launched (find_tessdata_paths linux_finder busy_world True) =
     [''env_vars'', ''tesseract_cmd''] \<and>
   found_paths (state_before linux_finder busy_world 1) = [''/opt/ocr/tessdata''] \<and>
   found_paths (state_before linux_finder busy_world 2) =
     [''/opt/ocr/tessdata'', ''/usr/share/tessdata'', ''/usr/share/tesseract-ocr/5/tessdata''] \<and>
   probes_launched (find_tessdata_paths linux_finder slow_world True) =
     [''env_vars'', ''tesseract_cmd''] \<and>
   found_paths (state_before linux_finder slow_world 2) = [] \<and>
   w_guard slow_world 1 - w_start slow_world \<le> timeout linux_finder \<and>
   timeout linux_finder < w_guard slow_world 2 - w_start slow_world"
proof -
  have env: "check_environment_vars sample_fs
               [''TESSDATA_PREFIX'' \<mapsto> ''/opt/ocr/tessdata''] ''/'' = [''/opt/ocr/tessdata'']"
    by code_simp
  have env0: "check_environment_vars sample_fs (\<lambda>var. None) ''/'' = []"
    by (simp add: check_environment_vars_def env_vars_def)
  show ?thesis
    using probes_in_order_and_guarded [of True busy_world linux_finder]
      probes_in_order_and_guarded [of True slow_world linux_finder]
    by (simp add: busy_world_def slow_world_def quiet_world_def linux_finder_def
        state_before_def initial_state_def load_cache_def find_tessdata_paths_def
        fresh_search_def methods_def stop_probing_def is_timeout_def elapsed_def
        set_update_def Let_def env env0)
qed

lemma run_methods_nothing:
  "list_all (\<lambda>m. yields_nothing (snd m)) ms \<Longrightarrow>
     found_paths (run_methods f w i ms s) = found_paths s"
proof (induction ms arbitrary: i s)
  case Nil
  then show ?case by simp
next
  case (Cons m ms)
  obtain name outcome where m: "m = (name, outcome)" by (cases m)
  from Cons.prems have y: "yields_nothing outcome"
    and rest: "list_all (\<lambda>m. yields_nothing (snd m)) ms"
    by (simp_all add: m)
  show ?case
  proof (cases "stop_probing f w i s")
    case True
    then show ?thesis by (simp add: m)
  next
    case False
    then show ?thesis
      using y Cons.IH [OF rest]
      by (cases outcome) (simp_all add: m yields_nothing_def set_update_def)
  qed
qed

lemma finalize_paths_Nil: "finalize_paths fs [] = []"
  by (simp add: finalize_paths_def)

text \<open>
  Claim C8, as the code has it.  When the cache gives nothing and neither the
  environment probe nor any of the other four probes yields a path (each returns the
  empty list or raises, which the loop catches), \<open>find_tessdata_paths\<close> returns the
  empty list and \<open>get_primary_path\<close> returns \<open>None\<close>.  The exhaustive finder has
  no cache: when the environment variable is unset, no binary is found and its searches
  come back empty, \<open>find_paths\<close> returns the empty list and \<open>find_primary_path\<close>
  returns \<open>None\<close>.  All four are total functions: no error reaches the caller.
\<close>

theorem no_probe_result_gives_empty:
  assumes "load_cache (w_fs w) (w_load w) (w_cache w) = []"
    and "check_environment_vars (w_fs w) (w_environ w) (w_cwd w) = []"
    and "yields_nothing (w_tesseract_cmd w)"
    and "yields_nothing (w_common_paths w)"
    and "yields_nothing (w_binary_relative w)"
    and "yields_nothing (w_package_locations w)"
    and "p_environ pl ''TESSDATA_PREFIX'' = None"
    and "p_binaries pl = []"
    and "p_from_tesseract pl = []"
    and "p_search pl = []"
    and "check_user_locations fs (p_home pl) = []"
  shows "result (find_tessdata_paths f w use_cache) = [] \<and>
         get_primary_path f w = None \<and>
         find_paths fs pl = [] \<and>
         find_primary_path fs pl = None"
proof -
  have "list_all (\<lambda>m. yields_nothing (snd m)) (methods w)"
    using assms(2-6) by (simp add: methods_def yields_nothing_def)
  then have
    "found_paths (run_methods f w 0 (methods w) \<lparr>found_paths = [], launched = []\<rparr>) = []"
    by (simp add: run_methods_nothing)
  then have fresh: "result (fresh_search f w uc) = []" for uc
    by (simp add: fresh_search_def Let_def finalize_paths_Nil)
  have r: "result (find_tessdata_paths f w uc) = []" for uc
    using assms(1) fresh by (simp add: find_tessdata_paths_def)
  have p: "find_paths fs pl = []"
    using assms(7-11) by (simp add: find_paths_def append_new_def)
  show ?thesis
    using r p by (simp add: get_primary_path_def find_primary_path_def)
qed

theorem no_probe_result_gives_empty_witness:
  "result (find_tessdata_paths linux_finder quiet_world True) = [] \<and>
   get_primary_path linux_finder quiet_world = None \<and>
   find_paths sample_fs bare_platform = [] \<and>
   find_primary_path sample_fs bare_platform = None"
  using no_probe_result_gives_empty [of quiet_world bare_platform sample_fs linux_finder True]
  by (simp add: quiet_world_def bare_platform_def load_cache_def check_environment_vars_def
      env_vars_def yields_nothing_def check_user_locations_def is_dir_def sample_fs_def fs_of_def)

text \<open>
  Claim C8 as it is worded fails for the fast finder: with a young cache file that names
  a directory which is still a data directory, the result is that directory although
  no probe yields anything.
\<close>

theorem cache_hit_without_probe_result:
  "check_environment_vars (w_fs cached_world) (w_environ cached_world)
     (w_cwd cached_world) = [] \<and>
   yields_nothing (w_tesseract_cmd cached_world) \<and>
   yields_nothing (w_common_paths cached_world) \<and>
   yields_nothing (w_binary_relative cached_world) \<and>
   yields_nothing (w_package_locations cached_world) \<and>
   result (find_tessdata_paths linux_finder cached_world True) = [''/opt/ocr/tessdata''] \<and>
   get_primary_path linux_finder cached_world = Some ''/opt/ocr/tessdata''"
  by (simp add: cached_world_def quiet_world_def check_environment_vars_def env_vars_def
      yields_nothing_def get_primary_path_def find_tessdata_paths_def load_cache_def
      cache_max_age_def mixed_record_def Let_def sample_valid)

section \<open>The ranker\<close>

lemma set_collect_valid:
  "set (collect_valid fs paths acc) =
     set acc \<union> normpath ` {p \<in> set paths. is_valid_tessdata_quick fs p}"
  by (induction paths arbitrary: acc) (auto simp: Let_def)

lemma distinct_collect_valid:
  "distinct acc \<Longrightarrow> distinct (collect_valid fs paths acc)"
  by (induction paths arbitrary: acc) (auto simp: Let_def)

lemma set_finalize_paths:
  "set (finalize_paths fs paths) = normpath ` {p \<in> set paths. is_valid_tessdata_quick fs p}"
  by (simp add: finalize_paths_def set_collect_valid)

lemma distinct_finalize_paths: "distinct (finalize_paths fs paths)"
  by (simp add: finalize_paths_def distinct_collect_valid)

lemma sorted_finalize_paths: "sorted (map (priority_key fs) (finalize_paths fs paths))"
  by (simp add: finalize_paths_def)

lemma snd_priority_key: "snd (priority_key fs path) = lower path"
  by (simp add: priority_key_def Let_def)

lemma glob_count:
  "(case glob_traineddata fs (Path path) of
      Inr files \<Rightarrow> int (length files)
    | Inl e \<Rightarrow> 0) = int (data_file_count fs path)"
  by (simp add: glob_traineddata_def data_file_count_def split: sum.splits node.splits)

lemma score_eq:
  "score fs path =
     - (if list_ex (\<lambda>env. str_contains env (lower path)) env_markers then 1000 else 0)
     - (if str_contains ''/usr/share'' (lower path) then 500 else 0)
     - (if list_ex (\<lambda>user. str_contains user (lower path)) user_markers then 300 else 0)
     - 10 * int (data_file_count fs path)"
  using glob_count [of fs path]
  by (simp add: score_def priority_key_def Let_def split: sum.splits)

lemma key_le_iff:
  "priority_key fs a \<le> priority_key fs b \<longleftrightarrow>
     score fs a < score fs b \<or> (score fs a = score fs b \<and> lower a \<le> lower b)"
  by (auto simp: less_eq_prod_def score_def snd_priority_key)

lemma finalize_paths_order:
  "sorted_wrt (\<lambda>a b. score fs a < score fs b \<or>
                  (score fs a = score fs b \<and> lower a \<le> lower b))
     (finalize_paths fs paths)"
  using sorted_finalize_paths [of fs paths] by (simp add: sorted_map key_le_iff)

lemma finalize_paths_same_set:
  assumes "set paths = set paths'"
    and "inj_on (priority_key fs) (set (finalize_paths fs paths))"
  shows "finalize_paths fs paths' = finalize_paths fs paths"
proof -
  have s: "set (finalize_paths fs paths') = set (finalize_paths fs paths)"
    using assms(1) by (simp add: set_finalize_paths)
  have d: "distinct (map (priority_key fs) (finalize_paths fs paths))"
    using assms(2) by (simp add: distinct_map distinct_finalize_paths)
  have d': "distinct (map (priority_key fs) (finalize_paths fs paths'))"
    using assms(2) s by (simp add: distinct_map distinct_finalize_paths)
  show ?thesis
    by (rule map_sorted_distinct_set_unique [where f = "priority_key fs"])
      (use assms(2) s d d' in \<open>simp_all add: sorted_finalize_paths\<close>)
qed

lemma finalize_paths_stable:
  "filter (\<lambda>q. priority_key fs q = k) (finalize_paths fs paths) =
     filter (\<lambda>q. priority_key fs q = k) (collect_valid fs paths [])"
  by (simp add: finalize_paths_def sort_key_stable)

text \<open>
  Claim C6, as the code has it.  The result of \<open>_finalize_paths\<close> is in ascending
  order of the score, and paths of equal score are in ascending order of their
  lower-cased strings.  The score is the sum of the boosts (1000 for an environment
  marker in the lower-cased path, 500 for \<open>/usr/share\<close>, 300 for a user marker)
  and ten points per data file of the directory, all subtracted from zero.  Two
  arrangements of the same candidates give the same result provided the key (score and
  lower-cased path) tells the resulting paths apart.
\<close>

theorem finalize_paths_ranking:
  assumes "set paths = set paths'"
    and "inj_on (priority_key fs) (set (finalize_paths fs paths))"
  shows "sorted_wrt (\<lambda>a b. score fs a < score fs b \<or>
                        (score fs a = score fs b \<and> lower a \<le> lower b))
           (finalize_paths fs paths) \<and>
         score fs path =
           - (if list_ex (\<lambda>env. str_contains env (lower path)) env_markers then 1000 else 0)
           - (if str_contains ''/usr/share'' (lower path) then 500 else 0)
           - (if list_ex (\<lambda>user. str_contains user (lower path)) user_markers then 300 else 0)
           - 10 * int (data_file_count fs path) \<and>
         finalize_paths fs paths' = finalize_paths fs paths"
  using finalize_paths_order [of fs paths] score_eq [of fs path]
    finalize_paths_same_set [OF assms] by simp

theorem finalize_paths_ranking_witness:
  "finalize_paths sample_fs
      [''/usr/share/tesseract-ocr/5/tessdata'', ''/usr/share/tessdata'', ''/opt/ocr/tessdata''] =
     [''/usr/share/tesseract-ocr/5/tessdata'', ''/usr/share/tessdata'', ''/opt/ocr/tessdata''] \<and>
   finalize_paths sample_fs
      [''/opt/ocr/tessdata'', ''/usr/share/tessdata'', ''/usr/share/tesseract-ocr/5/tessdata''] =
     [''/usr/share/tesseract-ocr/5/tessdata'', ''/usr/share/tessdata'', ''/opt/ocr/tessdata''] \<and>
   score sample_fs ''/usr/share/tesseract-ocr/5/tessdata'' = - 520 \<and>
   score sample_fs ''/usr/share/tessdata'' = - 510 \<and>
   score sample_fs ''/opt/ocr/tessdata'' = - 30"
proof -
  let ?xs = "[''/opt/ocr/tessdata'', ''/usr/share/tessdata'',
              ''/usr/share/tesseract-ocr/5/tessdata'']"
  let ?ys = "[''/usr/share/tesseract-ocr/5/tessdata'', ''/usr/share/tessdata'',
              ''/opt/ocr/tessdata'']"
  have e: "finalize_paths sample_fs ?xs = ?ys"
    by code_simp
  have k: "priority_key sample_fs ''/usr/share/tesseract-ocr/5/tessdata'' =
             (- 520, ''/usr/share/tesseract-ocr/5/tessdata'')"
      "priority_key sample_fs ''/usr/share/tessdata'' = (- 510, ''/usr/share/tessdata'')"
      "priority_key sample_fs ''/opt/ocr/tessdata'' = (- 30, ''/opt/ocr/tessdata'')"
    by code_simp+
  have h1: "set ?xs = set ?ys" by auto
  have h2: "inj_on (priority_key sample_fs) (set (finalize_paths sample_fs ?xs))"
    unfolding e by (simp add: k)
  from finalize_paths_ranking [OF h1 h2, of "''/opt/ocr/tessdata''"]
  have "finalize_paths sample_fs ?ys = finalize_paths sample_fs ?xs"
    by blast
  with e k show ?thesis
    by (simp add: score_def)
qed

text \<open>
  Claim C6 as it is worded fails: two directories whose paths differ in case only and
  hold one data file each have the same key, the sort is stable, and so the order of the
  result follows the order in which the candidates arrive, which for a Python set is
  not fixed.
\<close>

theorem equal_keys_keep_input_order:
  "set [''/data/Tess'', ''/data/tess''] = set [''/data/tess'', ''/data/Tess''] \<and>
   finalize_paths case_fs [''/data/Tess'', ''/data/tess''] = [''/data/Tess'', ''/data/tess''] \<and>
   finalize_paths case_fs [''/data/tess'', ''/data/Tess''] = [''/data/tess'', ''/data/Tess'']"
proof -
  have "finalize_paths case_fs [''/data/Tess'', ''/data/tess''] =
          [''/data/Tess'', ''/data/tess'']"
    and "finalize_paths case_fs [''/data/tess'', ''/data/Tess''] =
          [''/data/tess'', ''/data/Tess'']"
    by code_simp+
  then show ?thesis by (simp add: insert_commute)
qed

text \<open>
  Claim C7, as the code has it.  The result of \<open>_finalize_paths\<close> has no repetition
  and consists of the normalizations of the candidates that pass the validator.  The
  validator is applied to the candidate, not to its normalization: the paths of the
  result pass it when normalizing a valid candidate gives a valid path, as it does for
  candidates that are normalized already.
\<close>

theorem finalize_paths_unique:
  "distinct (finalize_paths fs paths) \<and>
   set (finalize_paths fs paths) = normpath ` {p \<in> set paths. is_valid_tessdata_quick fs p} \<and>
   ((\<forall>p\<in>set paths.
        is_valid_tessdata_quick fs p \<longrightarrow> is_valid_tessdata_quick fs (normpath p)) \<longrightarrow>
    list_all (is_valid_tessdata_quick fs) (finalize_paths fs paths))"
  by (auto simp: distinct_finalize_paths set_finalize_paths list_all_iff)

theorem finalize_paths_unique_witness:
  "finalize_paths plain_fs
      [''/opt/ocr/tessdata/'', ''/usr/share//tessdata'', ''/opt/ocr/tessdata''] =
     [''/usr/share/tessdata'', ''/opt/ocr/tessdata''] \<and>
   is_valid_tessdata_quick plain_fs ''/usr/share/tessdata'' \<and>
   is_valid_tessdata_quick plain_fs ''/opt/ocr/tessdata''"
proof -
  let ?xs = "[''/opt/ocr/tessdata/'', ''/usr/share//tessdata'', ''/opt/ocr/tessdata'']"
  have e: "finalize_paths plain_fs ?xs = [''/usr/share/tessdata'', ''/opt/ocr/tessdata'']"
    by code_simp
  have h: "\<forall>p\<in>set ?xs. is_valid_tessdata_quick plain_fs p \<longrightarrow>
             is_valid_tessdata_quick plain_fs (normpath p)"
    by code_simp
  from finalize_paths_unique [of plain_fs ?xs] h
  have "list_all (is_valid_tessdata_quick plain_fs) (finalize_paths plain_fs ?xs)"
    by blast
  with e show ?thesis by simp
qed

text \<open>
  Claim C7 as it is worded fails: \<open>/opt/link/../tessdata\<close> passes the validator, the
  link leading to \<open>/srv/pkg/bin\<close>; its normalization \<open>/opt/tessdata\<close> is what the
  result holds, and no such directory exists.
\<close>

theorem normalized_symlink_path_is_invalid:
  "is_valid_tessdata_quick link_fs ''/opt/link/../tessdata'' \<and>
   finalize_paths link_fs [''/opt/link/../tessdata''] = [''/opt/tessdata''] \<and>
   \<not> is_valid_tessdata_quick link_fs ''/opt/tessdata''"
  by code_simp

section \<open>The environment directory in the ranking\<close>

text \<open>
  Claim C2, evaluated.  \<open>TESSDATA_PREFIX\<close> names \<open>/opt/ocr/tessdata\<close>, which holds
  three data files; \<open>/usr/share/tessdata\<close> holds one.  The environment probe finds the
  former.  Its path contains neither \<open>tessdata_prefix\<close> nor \<open>tesseract_data\<close>, so
  it gets no boost and the score \<open>-30\<close>, against \<open>-510\<close> for the system directory:
  the fast finder ranks the system directory first and returns it as the primary path.
  The exhaustive finder returns the environment directory.
\<close>

theorem env_dir_ranked_below_share_dir:
  "check_environment_vars (w_fs env_world) (w_environ env_world) (w_cwd env_world) =
     [''/opt/ocr/tessdata''] \<and>
   data_file_count sample_fs ''/opt/ocr/tessdata'' = 3 \<and>
   data_file_count sample_fs ''/usr/share/tessdata'' = 1 \<and>
   score sample_fs ''/opt/ocr/tessdata'' = - 30 \<and>
   score sample_fs ''/usr/share/tessdata'' = - 510 \<and>
   result (find_tessdata_paths linux_finder env_world True) =
     [''/usr/share/tessdata'', ''/opt/ocr/tessdata''] \<and>
   get_primary_path linux_finder env_world = Some ''/usr/share/tessdata'' \<and>
   find_primary_path sample_fs env_platform = Some ''/opt/ocr/tessdata''"
proof -
  have env: "check_environment_vars sample_fs
               [''TESSDATA_PREFIX'' \<mapsto> ''/opt/ocr/tessdata''] ''/'' = [''/opt/ocr/tessdata'']"
    by code_simp
  have cnt: "data_file_count sample_fs ''/opt/ocr/tessdata'' = 3"
      "data_file_count sample_fs ''/usr/share/tessdata'' = 1"
    by code_simp+
  have sc: "score sample_fs ''/opt/ocr/tessdata'' = - 30"
      "score sample_fs ''/usr/share/tessdata'' = - 510"
    by code_simp+
  have fin: "finalize_paths sample_fs [''/opt/ocr/tessdata'', ''/usr/share/tessdata''] =
               [''/usr/share/tessdata'', ''/opt/ocr/tessdata'']"
    by code_simp
  have res: "result (find_tessdata_paths linux_finder env_world True) =
               [''/usr/share/tessdata'', ''/opt/ocr/tessdata'']"
    by (simp add: find_tessdata_paths_def fresh_search_def load_cache_def methods_def
        env_world_def quiet_world_def linux_finder_def stop_probing_def is_timeout_def
        elapsed_def set_update_def env fin Let_def)
  have prim: "find_primary_path sample_fs env_platform = Some ''/opt/ocr/tessdata''"
    by code_simp
  show ?thesis
    using env cnt sc res prim
    by (simp add: get_primary_path_def env_world_def quiet_world_def)
qed

theorem env_dir_ranked_below_share_dir_witness:
  "get_primary_path linux_finder env_world \<noteq> Some ''/opt/ocr/tessdata''"
  using env_dir_ranked_below_share_dir by simp

section \<open>Languages\<close>

lemma set_append_new: "set (append_new acc xs) = set acc \<union> set xs"
  unfolding append_new_def by (induction xs arbitrary: acc) auto

lemma distinct_append_new: "distinct acc \<Longrightarrow> distinct (append_new acc xs)"
  unfolding append_new_def by (induction xs arbitrary: acc) auto

lemma set_foldl_langs:
  "set (foldl (\<lambda>acc d. if P d then append_new acc (g d) else acc) acc ds) =
     set acc \<union> (\<Union>d\<in>set (filter P ds). set (g d))"
  by (induction ds arbitrary: acc) (auto simp: set_append_new)

lemma distinct_foldl_langs:
  "distinct acc \<Longrightarrow>
     distinct (foldl (\<lambda>acc d. if P d then append_new acc (g d) else acc) acc ds)"
  by (induction ds arbitrary: acc) (auto simp: distinct_append_new)

lemma set_foldl_all:
  "set (foldl (\<lambda>acc d. append_new acc (g d)) acc ds) = set acc \<union> (\<Union>d\<in>set ds. set (g d))"
  using set_foldl_langs [of "\<lambda>d. True" g acc ds] by simp

lemma distinct_foldl_all:
  "distinct acc \<Longrightarrow> distinct (foldl (\<lambda>acc d. append_new acc (g d)) acc ds)"
  using distinct_foldl_langs [of acc "\<lambda>d. True" g ds] by simp

lemma set_languages_of:
  "set (languages_of fs dirs) =
     (if languages_in fs (filter (has_box_train fs) dirs) = {}
      then languages_in fs dirs
      else languages_in fs (filter (has_box_train fs) dirs))"
proof -
  let ?boxed = "foldl (\<lambda>acc dirpath.
                     if has_box_train fs dirpath
                     then append_new acc (get_languages_from_path fs dirpath)
                     else acc) [] dirs"
  have b: "set ?boxed = languages_in fs (filter (has_box_train fs) dirs)"
    by (simp add: set_foldl_langs languages_in_def)
  have e: "?boxed = [] \<longleftrightarrow> languages_in fs (filter (has_box_train fs) dirs) = {}"
    unfolding b [symmetric] by simp
  show ?thesis
  proof (cases "?boxed = []")
    case True
    then show ?thesis
      using e by (simp add: languages_of_def Let_def set_foldl_all languages_in_def)
  next
    case False
    then show ?thesis
      using e b by (simp add: languages_of_def Let_def)
  qed
qed

lemma distinct_languages_of: "distinct (languages_of fs dirs)"
  by (simp add: languages_of_def Let_def distinct_foldl_langs distinct_foldl_all)

lemma sorted_languages_of: "sorted (languages_of fs dirs)"
  by (simp add: languages_of_def Let_def)

lemma stem_of_data_file:
  assumes "endswith n traineddata" and "length traineddata < length n"
  shows "path_stem n = take (length n - 12) n"
proof -
  from assms obtain pre where pre: "n = pre @ traineddata"
    unfolding endswith_iff by blast
  have ne: "pre \<noteq> []"
  proof
    assume "pre = []"
    with pre have "n = traineddata" by simp
    with assms(2) show False by simp
  qed
  have r: "rfind CHR ''.'' (pre @ CHR ''.'' # ''traineddata'') = Some (length pre)"
    by (rule rfind_append) simp
  have n: "n = pre @ CHR ''.'' # ''traineddata''" using pre by (simp add: traineddata_def)
  show ?thesis
    unfolding n path_stem_def r using ne by simp
qed


text \<open>
  Claim C9, as the code has it.  \<open>get_all_languages\<close> returns a sorted list without
  repetition.  Its members are the codes of the discovered directories that hold
  \<open>configs/box.train\<close>; only when these give no code at all are they the codes of
  all discovered directories.  A code is an entry name that ends with \<open>.traineddata\<close>
  (compared in lower case) without its last twelve characters.  When discovery yields
  one readable directory whose data files are \<open>eng.traineddata\<close> and
  \<open>fra.traineddata\<close>, the result is \<open>eng\<close>, \<open>fra\<close>.
\<close>

theorem all_languages_sorted_unique:
  "sorted (get_all_languages fs pl) \<and>
   distinct (get_all_languages fs pl) \<and>
   set (get_all_languages fs pl) =
     (if languages_in fs (filter (has_box_train fs) (find_paths fs pl)) = {}
      then languages_in fs (find_paths fs pl)
      else languages_in fs (filter (has_box_train fs) (find_paths fs pl))) \<and>
   (find_paths fs pl = [d] \<and> access_r fs d \<and> listdir fs d = Inr names \<and>
    set (filter (\<lambda>n. endswith (lower n) traineddata) names) =
      {''eng.traineddata'', ''fra.traineddata''} \<longrightarrow>
    get_all_languages fs pl = [''eng'', ''fra''])"
proof -
  have scen: "get_all_languages fs pl = [''eng'', ''fra'']"
    if h: "find_paths fs pl = [d]" "access_r fs d" "listdir fs d = Inr names"
      "set (filter (\<lambda>n. endswith (lower n) traineddata) names) =
         {''eng.traineddata'', ''fra.traineddata''}"
  proof -
    have "set (get_languages_from_path fs d) =
            (\<lambda>filename. take (length filename - 12) filename) `
              set (filter (\<lambda>n. endswith (lower n) traineddata) names)"
      using h(2,3) by (simp add: get_languages_from_path_def)
    then have g: "set (get_languages_from_path fs d) = {''eng'', ''fra''}"
      unfolding h(4) by simp
    let ?B = "languages_in fs (filter (has_box_train fs) [d])"
    have all: "languages_in fs [d] = {''eng'', ''fra''}"
      using g by (simp add: languages_in_def)
    have boxed: "?B = {} \<or> ?B = {''eng'', ''fra''}"
      using g by (simp add: languages_in_def)
    have "set (languages_of fs [d]) = {''eng'', ''fra''}"
    proof (cases "?B = {}")
      case True
      have "set (languages_of fs [d]) = languages_in fs [d]"
        unfolding set_languages_of True by (simp only: if_True simp_thms)
      with all show ?thesis by (simp only:)
    next
      case False
      have "set (languages_of fs [d]) = ?B"
        unfolding set_languages_of using False by (simp only: if_False simp_thms)
      moreover from boxed False have "?B = {''eng'', ''fra''}" by blast
      ultimately show ?thesis by (simp only:)
    qed
    then have s: "set (get_all_languages fs pl) = set [''eng'', ''fra'']"
      by (simp add: get_all_languages_def h(1))
    have "sorted [''eng'', ''fra'']" by simp
    then show ?thesis
      using s sorted_distinct_set_unique [of "get_all_languages fs pl" "[''eng'', ''fra'']"]
      by (simp add: get_all_languages_def sorted_languages_of distinct_languages_of)
  qed
  show ?thesis
    using scen
    by (simp add: get_all_languages_def sorted_languages_of distinct_languages_of
        set_languages_of)
qed

theorem all_languages_sorted_unique_witness:
  "get_all_languages one_dir_fs one_dir_platform = [''eng'', ''fra'']"
proof -
  have h: "find_paths one_dir_fs one_dir_platform = [''/usr/share/tessdata'']"
      "access_r one_dir_fs ''/usr/share/tessdata''"
      "listdir one_dir_fs ''/usr/share/tessdata'' =
         Inr [''fra.traineddata'', ''configs'', ''eng.traineddata'']"
      "set (filter (\<lambda>n. endswith (lower n) traineddata)
          [''fra.traineddata'', ''configs'', ''eng.traineddata'']) =
        {''eng.traineddata'', ''fra.traineddata''}"
    by code_simp+
  from all_languages_sorted_unique
      [of one_dir_fs one_dir_platform "''/usr/share/tessdata''"
        "[''fra.traineddata'', ''configs'', ''eng.traineddata'']"] h
  show ?thesis by blast
qed

text \<open>
  Claim C9 as it is worded fails: of two discovered data directories, the one with
  \<open>configs/box.train\<close> holds \<open>eng\<close> and the other holds \<open>deu\<close>, \<open>eng\<close>,
  \<open>fra\<close>; the result is \<open>eng\<close> alone.
\<close>

theorem box_train_hides_other_languages:
  "find_paths box_fs box_platform = [''/usr/share/tessdata'', ''/opt/ocr/tessdata''] \<and>
   is_valid_tessdata_dir box_fs ''/opt/ocr/tessdata'' \<and>
   get_languages_from_path box_fs ''/opt/ocr/tessdata'' = [''deu'', ''eng'', ''fra''] \<and>
   get_all_languages box_fs box_platform = [''eng'']"
  by code_simp

section \<open>Validation records\<close>

lemma glob_Inr_nonempty:
  assumes "glob_traineddata fs p = Inr files" and "files \<noteq> []"
  shows "\<exists>r sz names. fs p = Inr (Dir r sz (Inr names)) \<and>
           files = filter (\<lambda>f. endswith f traineddata) names"
  using assms
  by (auto simp: glob_traineddata_def split: sum.splits node.splits if_splits)

lemma validate_dom: "info_keys \<subseteq> dom (validate_tessdata_path round_mb fs path)"
  by (auto simp: validate_tessdata_path_def initial_info_def info_keys_def Let_def
      split: sum.splits)

lemma validate_valid:
  assumes "validate_tessdata_path round_mb fs path ''valid'' = Some (VBool True)"
  shows "validate_tessdata_path round_mb fs path ''exists'' = Some (VBool True) \<and>
         validate_tessdata_path round_mb fs path ''readable'' = Some (VBool True) \<and>
         (\<exists>files. glob_traineddata fs (Path path) = Inr files \<and> 1 \<le> length files \<and>
            validate_tessdata_path round_mb fs path ''language_count'' =
              Some (VInt (int (length files))) \<and>
            validate_tessdata_path round_mb fs path ''languages'' =
              Some (VList (map path_stem files)))"
  using assms
  by (auto simp: validate_tessdata_path_def initial_info_def Let_def Suc_le_eq
      split: sum.splits if_splits)

lemma validate_invalid:
  assumes "\<not> path_exists fs path \<or> \<not> access_r fs path \<or> \<not> path_exists fs (Path path)"
  shows "validate_tessdata_path round_mb fs path ''valid'' = Some (VBool False) \<and>
         validate_tessdata_path round_mb fs path ''language_count'' = Some (VInt 0)"
proof -
  have "\<not> path_exists fs path \<Longrightarrow> \<not> access_r fs path"
    by (auto simp: path_exists_def access_r_def split: sum.splits)
  with assms have "\<not> access_r fs path \<or> \<not> path_exists fs (Path path)"
    by blast
  then show ?thesis
    by (auto simp: validate_tessdata_path_def initial_info_def Let_def pathlib_exists_def
        path_exists_def split: sum.splits if_splits)
qed

text \<open>
  Claim C10.  \<open>validate_tessdata_path\<close> is total (every exception is caught and
  stored under \<open>error\<close>) and its record has the keys \<open>path\<close>, \<open>valid\<close>,
  \<open>exists\<close>, \<open>readable\<close>, \<open>language_count\<close>, \<open>languages\<close> and
  \<open>size_mb\<close>.  When \<open>valid\<close> is true, so are \<open>exists\<close> and \<open>readable\<close>, the
  path (as \<open>Path\<close> reads it) is a directory that could be listed, \<open>languages\<close>
  holds the stems of its entries that end with \<open>.traineddata\<close>, in their order, and
  \<open>language_count\<close> is their number, which is at least one.  For a path that does
  not exist, whether as the string that was given or as \<open>Path\<close> reads it, or is not
  readable (here \<open>other\<close>), \<open>valid\<close> is false and \<open>language_count\<close> is zero.
\<close>

theorem validate_tessdata_path_record:
  "info_keys \<subseteq> dom (validate_tessdata_path round_mb fs path) \<and>
   (validate_tessdata_path round_mb fs path ''valid'' = Some (VBool True) \<longrightarrow>
      validate_tessdata_path round_mb fs path ''exists'' = Some (VBool True) \<and>
      validate_tessdata_path round_mb fs path ''readable'' = Some (VBool True) \<and>
      (\<exists>r sz names files.
         fs (Path path) = Inr (Dir r sz (Inr names)) \<and>
         files = filter (\<lambda>f. endswith f traineddata) names \<and>
         1 \<le> length files \<and>
         validate_tessdata_path round_mb fs path ''language_count'' =
           Some (VInt (int (length files))) \<and>
         validate_tessdata_path round_mb fs path ''languages'' =
           Some (VList (map path_stem files)))) \<and>
   (\<not> path_exists fs other \<or> \<not> access_r fs other \<or> \<not> path_exists fs (Path other) \<longrightarrow>
      validate_tessdata_path round_mb fs other ''valid'' = Some (VBool False) \<and>
      validate_tessdata_path round_mb fs other ''language_count'' = Some (VInt 0))"
proof -
  have v: "\<exists>r sz names files.
         fs (Path path) = Inr (Dir r sz (Inr names)) \<and>
         files = filter (\<lambda>f. endswith f traineddata) names \<and>
         1 \<le> length files \<and>
         validate_tessdata_path round_mb fs path ''language_count'' =
           Some (VInt (int (length files))) \<and>
         validate_tessdata_path round_mb fs path ''languages'' =
           Some (VList (map path_stem files))"
    if h: "validate_tessdata_path round_mb fs path ''valid'' = Some (VBool True)"
  proof -
    from validate_valid [OF h] obtain files where f:
        "glob_traineddata fs (Path path) = Inr files" "1 \<le> length files"
        "validate_tessdata_path round_mb fs path ''language_count'' =
           Some (VInt (int (length files)))"
        "validate_tessdata_path round_mb fs path ''languages'' =
           Some (VList (map path_stem files))"
      by blast
    from f(2) have "files \<noteq> []" by auto
    from glob_Inr_nonempty [OF f(1) this] obtain r sz names where
        "fs (Path path) = Inr (Dir r sz (Inr names))"
        "files = filter (\<lambda>f. endswith f traineddata) names"
      by blast
    with f show ?thesis by blast
  qed
  show ?thesis
    using validate_dom [of round_mb fs path] validate_valid [of round_mb fs path]
      validate_invalid [of fs other round_mb] v
    by blast
qed

theorem validate_tessdata_path_record_witness:
  "validate_tessdata_path megabytes sized_fs ''/opt/t'' ''valid'' = Some (VBool True) \<and>
   validate_tessdata_path megabytes sized_fs ''/opt/t'' ''exists'' = Some (VBool True) \<and>
   validate_tessdata_path megabytes sized_fs ''/opt/t'' ''readable'' = Some (VBool True) \<and>
   validate_tessdata_path megabytes sized_fs ''/opt/t'' ''language_count'' = Some (VInt 1) \<and>
   validate_tessdata_path megabytes sized_fs ''/opt/t'' ''languages'' =
     Some (VList [''eng'']) \<and>
   validate_tessdata_path megabytes sized_fs ''/opt/t'' ''size_mb'' = Some (VFloat 4) \<and>
   \<not> path_exists sized_fs ''/opt/none'' \<and>
   validate_tessdata_path megabytes sized_fs ''/opt/none'' ''valid'' = Some (VBool False) \<and>
   validate_tessdata_path megabytes sized_fs ''/opt/none'' ''language_count'' = Some (VInt 0) \<and>
   \<not> access_r sized_fs ''/opt/t/README/'' \<and>
   validate_tessdata_path megabytes sized_fs ''/opt/t/README/'' ''exists'' =
     Some (VBool True) \<and>
   validate_tessdata_path megabytes sized_fs ''/opt/t/README/'' ''valid'' =
     Some (VBool False)"
proof -
  have P: "Path ''/opt/t'' = ''/opt/t''" "Path ''/opt/t/README/'' = ''/opt/t/README''"
    by code_simp+
  have e: "validate_tessdata_path megabytes sized_fs ''/opt/t'' ''valid'' = Some (VBool True)"
      "validate_tessdata_path megabytes sized_fs ''/opt/t'' ''size_mb'' = Some (VFloat 4)"
      "validate_tessdata_path megabytes sized_fs ''/opt/t'' ''language_count'' = Some (VInt 1)"
      "validate_tessdata_path megabytes sized_fs ''/opt/t'' ''languages'' =
         Some (VList [''eng''])"
      "validate_tessdata_path megabytes sized_fs ''/opt/t/README/'' ''exists'' =
         Some (VBool True)"
    by (simp_all add: validate_tessdata_path_def initial_info_def sized_fs_def fs_of_def
        pathlib_exists_def access_r_def glob_traineddata_def traineddata_def endswith_def
        child_def stat_size_def path_stem_def megabytes_def Let_def P)
  have n: "\<not> path_exists sized_fs ''/opt/none''" "\<not> access_r sized_fs ''/opt/t/README/''"
    by (simp_all add: path_exists_def access_r_def sized_fs_def fs_of_def)
  from validate_tessdata_path_record [of megabytes sized_fs "''/opt/t''" "''/opt/none''"]
    validate_tessdata_path_record [of megabytes sized_fs "''/opt/t''" "''/opt/t/README/''"] e n
  show ?thesis by blast
qed

end
